theory Spec2Isabelle
  imports Main
begin

section \<open>Errors\<close>

text \<open>
  The Python exceptions the modelled code raises. An operation that may raise returns
  a value of \<open>error + 'a\<close>, with \<open>Inl\<close> the exception.
\<close>

datatype error =
    KeyError
  | RuntimeError
  | ValueError
  | TypeError
  | IndexError
  | AttributeError

section \<open>Identifiers (definitions/identifier.py)\<close>

text \<open>
  \<open>Identifier\<close> is a subclass of \<open>str\<close>: a value is the string itself, and
  \<open>__new__\<close> either returns it or raises \<open>ValueError\<close>.
\<close>

type_synonym Identifier = string

text \<open>\<open>str.split(sep)\<close> for a one-character separator: never the empty list.\<close>

fun split_on :: "char \<Rightarrow> string \<Rightarrow> string list" where
  "split_on c [] = [[]]"
| "split_on c (x # xs) =
     (if x = c then [] # split_on c xs
      else (case split_on c xs of
              [] \<Rightarrow> [[x]]
            | p # ps \<Rightarrow> (x # p) # ps))"

definition kinds :: "string list" where
  "kinds = [''party'', ''party_collection'', ''site'', ''asset'', ''asset_collection'',
            ''result'']"

definition lengths :: "string \<rightharpoonup> nat" where
  "lengths = map_of [(''party'', 3), (''party_collection'', 3), (''site'', 3),
                     (''asset'', 5), (''asset_collection'', 3), (''result'', 2)]"

text \<open>The character class \<open>[a-zA-Z0-9_.-]\<close> of \<open>_part_regex\<close>.\<close>

definition part_char :: "char \<Rightarrow> bool" where
  "part_char c =
     (let n = (of_char c :: nat) in
        (97 \<le> n \<and> n \<le> 122) \<or> (65 \<le> n \<and> n \<le> 90) \<or> (48 \<le> n \<and> n \<le> 57)
        \<or> c = CHR ''_'' \<or> c = CHR ''.'' \<or> c = CHR ''-'')"

text \<open>
  \<open>_part_regex.match(part)\<close> for the pattern \<open>[a-zA-Z0-9_.-]*\<close>: \<open>re.match\<close>
  anchors the pattern at the start of the string only, and the starred class matches
  greedily the longest prefix of class characters, which may be empty. The result is
  the match object (here the matched text), or \<open>None\<close> when there is no match.
\<close>

definition part_regex_match :: "string \<Rightarrow> string option" where
  "part_regex_match part = Some (takeWhile part_char part)"

text \<open>The loop \<open>for part in parts: if not _part_regex.match(part): raise\<close>.\<close>

fun check_parts :: "string list \<Rightarrow> error + unit" where
  "check_parts [] = Inr ()"
| "check_parts (part # rest) =
     (case part_regex_match part of
        None \<Rightarrow> Inl ValueError
      | Some m \<Rightarrow> check_parts rest)"

definition Identifier_new :: "string \<Rightarrow> error + Identifier" where
  "Identifier_new data =
     (if data \<noteq> ''*'' then
        (case split_on CHR '':'' data of
           [] \<Rightarrow> Inl IndexError
         | p0 # ps \<Rightarrow>
             if p0 \<notin> set kinds then Inl ValueError
             else if Some (length (p0 # ps)) \<noteq> lengths p0 then Inl ValueError
             else (case check_parts (p0 # ps) of
                     Inl e \<Rightarrow> Inl e
                   | Inr u \<Rightarrow> Inr data))
      else Inr data)"

definition from_id_hash :: "string \<Rightarrow> error + Identifier" where
  "from_id_hash id_hash = Identifier_new (''result:'' @ id_hash)"

definition parts :: "Identifier \<Rightarrow> string list" where
  "parts self = split_on CHR '':'' self"

text \<open>Python list indexing \<open>xs[i]\<close> for a non-negative literal index.\<close>

definition index :: "'a list \<Rightarrow> nat \<Rightarrow> error + 'a" where
  "index xs i = (if i < length xs then Inr (xs ! i) else Inl IndexError)"

definition namespace :: "Identifier \<Rightarrow> error + string" where
  "namespace self =
     (case index (parts self) 0 of
        Inl e \<Rightarrow> Inl e
      | Inr k \<Rightarrow> if k = ''result'' then Inl RuntimeError else index (parts self) 1)"

definition location :: "Identifier \<Rightarrow> error + Identifier" where
  "location self =
     (case index (parts self) 0 of
        Inl e \<Rightarrow> Inl e
      | Inr k \<Rightarrow>
          if k \<noteq> ''asset'' then Inl RuntimeError
          else (case index (parts self) 3 of
                  Inl e \<Rightarrow> Inl e
                | Inr p3 \<Rightarrow>
                    (case index (parts self) 4 of
                       Inl e \<Rightarrow> Inl e
                     | Inr p4 \<Rightarrow> Identifier_new (''site:'' @ p3 @ '':'' @ p4))))"

section \<open>Registry contents (definitions/registry.py)\<close>

record SiteDescription =
  site_id :: Identifier
  owner_id :: Identifier
  admin_id :: Identifier
  endpoint :: string
  runner :: bool
  store :: bool
  site_namespace :: "string option"

text \<open>
  \<open>SiteDescription.__init__\<close>: the attributes are assigned, then a site with a runner
  and no store is refused.
\<close>

definition SiteDescription_init ::
  "Identifier \<Rightarrow> Identifier \<Rightarrow> Identifier \<Rightarrow> string \<Rightarrow> bool \<Rightarrow> bool \<Rightarrow> string option
     \<Rightarrow> error + SiteDescription" where
  "SiteDescription_init sid own adm ep r s ns =
     (let self = \<lparr>site_id = sid, owner_id = own, admin_id = adm, endpoint = ep,
                   runner = r, store = s, site_namespace = ns\<rparr>
      in if r \<and> \<not> s then Inl RuntimeError else Inr self)"

text \<open>
  The site descriptions a caller obtains from a list of constructor calls: a call
  that raises yields no object.
\<close>

fun constructed_sites ::
  "(Identifier \<times> Identifier \<times> Identifier \<times> string \<times> bool \<times> bool \<times> string option) list
     \<Rightarrow> SiteDescription list" where
  "constructed_sites [] = []"
| "constructed_sites ((sid, own, adm, ep, r, s, ns) # rest) =
     (case SiteDescription_init sid own adm ep r s ns of
        Inl e \<Rightarrow> constructed_sites rest
      | Inr d \<Rightarrow> d # constructed_sites rest)"

section \<open>Workflows, jobs and assets\<close>

text \<open>
  The modules that declare workflows, assets and the policy evaluator are not among
  the sources; the types below hold the attributes the sources read. A dictionary
  that the code iterates over is an association list in iteration order, one that it
  only indexes is a map.
\<close>

record WorkflowStep =
  step_name :: string
  step_inputs :: "(string \<times> string) list"
  step_outputs :: "string list"
  compute_asset_id :: Identifier

record Workflow =
  steps :: "(string \<times> WorkflowStep) list"

record Job =
  workflow :: Workflow
  job_inputs :: "string \<rightharpoonup> Identifier"

record Metadata =
  job :: Job
  item :: string

datatype ('d, 'c) Asset =
    DataAsset Identifier 'd Metadata
  | ComputeAsset Identifier 'c Metadata

fun asset_id :: "('d, 'c) Asset \<Rightarrow> Identifier" where
  "asset_id (DataAsset i d m) = i"
| "asset_id (ComputeAsset i c m) = i"

fun metadata :: "('d, 'c) Asset \<Rightarrow> Metadata" where
  "metadata (DataAsset i d m) = m"
| "metadata (ComputeAsset i c m) = m"

text \<open>The attribute \<open>asset.data\<close>: only a data asset has it.\<close>

fun asset_data :: "('d, 'c) Asset \<Rightarrow> error + 'd" where
  "asset_data (DataAsset i d m) = Inr d"
| "asset_data (ComputeAsset i c m) = Inl AttributeError"

text \<open>
  The policy evaluator and the permission calculator, as the stores and the runners
  call them: \<open>calculate_permissions(job)\<close> yields a dictionary from workflow items
  to permissions (or raises), \<open>may_access(perm, who)\<close> a truth value.
\<close>

record 'p Policy =
  calculate_permissions :: "Job \<Rightarrow> error + (string \<rightharpoonup> 'p)"
  may_access :: "'p \<Rightarrow> string \<Rightarrow> bool"

section \<open>The asset store (components/asset\_store.py)\<close>

record ('d, 'c) AssetStore =
  assets :: "Identifier \<rightharpoonup> ('d, 'c) Asset"

text \<open>
  Every method takes the store and returns the result, or the exception raised,
  together with the store afterwards.
\<close>

definition AssetStore_store ::
  "('d, 'c) AssetStore \<Rightarrow> ('d, 'c) Asset \<Rightarrow> (error + unit) \<times> ('d, 'c) AssetStore" where
  "AssetStore_store self asset =
     (if assets self (asset_id asset) \<noteq> None then (Inl KeyError, self)
      else (Inr (), self\<lparr>assets := (assets self)(asset_id asset \<mapsto> asset)\<rparr>))"

definition AssetStore_retrieve ::
  "'p Policy \<Rightarrow> ('d, 'c) AssetStore \<Rightarrow> Identifier \<Rightarrow> string
     \<Rightarrow> (error + ('d, 'c) Asset) \<times> ('d, 'c) AssetStore" where
  "AssetStore_retrieve pol self aid requester =
     (case assets self aid of
        None \<Rightarrow> (Inl KeyError, self)
      | Some asset \<Rightarrow>
          (case calculate_permissions pol (job (metadata asset)) of
             Inl e \<Rightarrow> (Inl e, self)
           | Inr perms \<Rightarrow>
               (case perms (item (metadata asset)) of
                  None \<Rightarrow> (Inl KeyError, self)
                | Some perm \<Rightarrow>
                    if \<not> may_access pol perm requester then (Inl RuntimeError, self)
                    else (Inr asset, self))))"

section \<open>The earlier asset store (poc/asset\_store.py)\<close>

text \<open>This store keeps the data and the metadata in two dictionaries under a name.\<close>

record 'd poc_AssetStore =
  poc_name :: string
  poc_assets :: "string \<rightharpoonup> 'd"
  poc_metadata :: "string \<rightharpoonup> Metadata"

definition poc_store ::
  "'d poc_AssetStore \<Rightarrow> string \<Rightarrow> 'd \<Rightarrow> Metadata \<Rightarrow> (error + unit) \<times> 'd poc_AssetStore" where
  "poc_store self name data md =
     (if poc_assets self name \<noteq> None then (Inl KeyError, self)
      else (Inr (), self\<lparr>poc_assets := (poc_assets self)(name \<mapsto> data),
                          poc_metadata := (poc_metadata self)(name \<mapsto> md)\<rparr>))"

definition poc_retrieve ::
  "'p Policy \<Rightarrow> 'd poc_AssetStore \<Rightarrow> string \<Rightarrow> string
     \<Rightarrow> (error + 'd \<times> Metadata) \<times> 'd poc_AssetStore" where
  "poc_retrieve pol self asset_name requester =
     (case poc_assets self asset_name of
        None \<Rightarrow> (Inl KeyError, self)
      | Some data \<Rightarrow>
          (case poc_metadata self asset_name of
             None \<Rightarrow> (Inl KeyError, self)
           | Some md \<Rightarrow>
               (case calculate_permissions pol (job md) of
                  Inl e \<Rightarrow> (Inl e, self)
                | Inr perms \<Rightarrow>
                    (case perms (item md) of
                       None \<Rightarrow> (Inl KeyError, self)
                     | Some perm \<Rightarrow>
                         if \<not> may_access pol perm requester then (Inl RuntimeError, self)
                         else (Inr (data, md), self)))))"

section \<open>The registry (registry.py)\<close>

text \<open>
  The descriptions as \<open>registry.py\<close> reads them: it identifies a party and a site by
  the attribute \<open>name\<close> and a site's owner and administrator by \<open>owner_name\<close> and
  \<open>admin_name\<close> (the module \<open>proof_of_concept.definitions\<close> it imports them from
  is not among the sources; \<open>definitions/registry.py\<close> above is a revision that calls
  them \<open>id\<close>, \<open>owner_id\<close> and \<open>admin_id\<close>). \<open>site_rest\<close> stands for the
  attributes the registry never reads.
\<close>

record 'k PartyDescription =
  party_name :: string
  public_key :: 'k

record 'r NamedSiteDescription =
  site_name :: string
  owner_name :: string
  admin_name :: string
  site_rest :: 'r

datatype ('k, 'r) RegisteredObject =
    Party "'k PartyDescription"
  | Site "'r NamedSiteDescription"

text \<open>The classes passed as \<open>typ\<close> to the search, and \<open>isinstance(o, typ)\<close>.\<close>

datatype cls = PartyDescriptionT | SiteDescriptionT

fun isinstance :: "('k, 'r) RegisteredObject \<Rightarrow> cls \<Rightarrow> bool" where
  "isinstance (Party p) t = (t = PartyDescriptionT)"
| "isinstance (Site s) t = (t = SiteDescriptionT)"

text \<open>
  \<open>getattr(o, attr_name)\<close> for the attributes above; an object without the attribute
  raises \<open>AttributeError\<close>.
\<close>

datatype 'k attr = StrAttr string | KeyAttr 'k

fun getattr :: "('k, 'r) RegisteredObject \<Rightarrow> string \<Rightarrow> error + 'k attr" where
  "getattr (Party p) a =
     (if a = ''name'' then Inr (StrAttr (party_name p))
      else if a = ''public_key'' then Inr (KeyAttr (public_key p))
      else Inl AttributeError)"
| "getattr (Site s) a =
     (if a = ''name'' then Inr (StrAttr (site_name s))
      else if a = ''owner_name'' then Inr (StrAttr (owner_name s))
      else if a = ''admin_name'' then Inr (StrAttr (admin_name s))
      else Inl AttributeError)"

text \<open>
  Modelled from the spec: \<open>CanonicalStore\<close> (module \<open>replication\<close>, not among the
  sources) holds the set of registered objects; \<open>objects()\<close> yields them and
  \<open>insert\<close> adds one. The objects are kept as a list, in the order \<open>objects()\<close>
  yields them.
\<close>

record ('k, 'r) Registry =
  asset_locations :: "string \<rightharpoonup> string"
  canonical_store :: "('k, 'r) RegisteredObject list"

definition CanonicalStore_insert ::
  "('k, 'r) RegisteredObject list \<Rightarrow> ('k, 'r) RegisteredObject \<Rightarrow> ('k, 'r) RegisteredObject list" where
  "CanonicalStore_insert objs ob = objs @ [ob]"

text \<open>\<open>_get_object\<close>: the first object of the class whose attribute has the value.\<close>

fun get_object ::
  "('k, 'r) RegisteredObject list \<Rightarrow> cls \<Rightarrow> string \<Rightarrow> 'k attr
     \<Rightarrow> error + ('k, 'r) RegisteredObject option" where
  "get_object [] t attr_name v = Inr None"
| "get_object (ob # rest) t attr_name v =
     (if isinstance ob t then
        (case getattr ob attr_name of
           Inl e \<Rightarrow> Inl e
         | Inr a \<Rightarrow> if a = v then Inr (Some ob) else get_object rest t attr_name v)
      else get_object rest t attr_name v)"

definition in_store ::
  "('k, 'r) RegisteredObject list \<Rightarrow> cls \<Rightarrow> string \<Rightarrow> 'k attr \<Rightarrow> error + bool" where
  "in_store objs t attr_name v =
     (case get_object objs t attr_name v of
        Inl e \<Rightarrow> Inl e
      | Inr r \<Rightarrow> Inr (r \<noteq> None))"

definition register_party ::
  "('k, 'r) Registry \<Rightarrow> 'k PartyDescription \<Rightarrow> (error + unit) \<times> ('k, 'r) Registry" where
  "register_party self description =
     (case in_store (canonical_store self) PartyDescriptionT ''name''
             (StrAttr (party_name description)) of
        Inl e \<Rightarrow> (Inl e, self)
      | Inr found \<Rightarrow>
          if found then (Inl RuntimeError, self)
          else (Inr (), self\<lparr>canonical_store :=
                   CanonicalStore_insert (canonical_store self) (Party description)\<rparr>))"

definition register_site ::
  "('k, 'r) Registry \<Rightarrow> 'r NamedSiteDescription \<Rightarrow> (error + unit) \<times> ('k, 'r) Registry" where
  "register_site self description =
     (case in_store (canonical_store self) SiteDescriptionT ''name''
             (StrAttr (site_name description)) of
        Inl e \<Rightarrow> (Inl e, self)
      | Inr found \<Rightarrow>
          if found then (Inl RuntimeError, self)
          else (case get_object (canonical_store self) PartyDescriptionT ''name''
                       (StrAttr (owner_name description)) of
                  Inl e \<Rightarrow> (Inl e, self)
                | Inr None \<Rightarrow> (Inl RuntimeError, self)
                | Inr (Some owner) \<Rightarrow>
                    (case get_object (canonical_store self) PartyDescriptionT ''name''
                            (StrAttr (admin_name description)) of
                       Inl e \<Rightarrow> (Inl e, self)
                     | Inr None \<Rightarrow> (Inl RuntimeError, self)
                     | Inr (Some admin) \<Rightarrow>
                         (Inr (), self\<lparr>canonical_store :=
                            CanonicalStore_insert (canonical_store self) (Site description)\<rparr>))))"

definition register_asset ::
  "('k, 'r) Registry \<Rightarrow> string \<Rightarrow> string \<Rightarrow> (error + unit) \<times> ('k, 'r) Registry" where
  "register_asset self aid sname =
     (if asset_locations self aid \<noteq> None then (Inl RuntimeError, self)
      else (Inr (), self\<lparr>asset_locations := (asset_locations self)(aid \<mapsto> sname)\<rparr>))"

definition get_asset_location :: "('k, 'r) Registry \<Rightarrow> string \<Rightarrow> error + string" where
  "get_asset_location self aid =
     (case asset_locations self aid of None \<Rightarrow> Inl KeyError | Some sname \<Rightarrow> Inr sname)"

text \<open>Whether a party, or a site, of a given name is among the objects.\<close>

definition party_registered :: "('k, 'r) RegisteredObject list \<Rightarrow> string \<Rightarrow> bool" where
  "party_registered objs n = (\<exists>p. Party p \<in> set objs \<and> party_name p = n)"

definition site_registered :: "('k, 'r) RegisteredObject list \<Rightarrow> string \<Rightarrow> bool" where
  "site_registered objs n = (\<exists>s. Site s \<in> set objs \<and> site_name s = n)"

text \<open>A registry with the party \<open>p1\<close>, and a site of that party.\<close>

definition party_p1 :: "string PartyDescription" where
  "party_p1 = \<lparr>party_name = ''p1'', public_key = ''key1''\<rparr>"

definition site_s1 :: "unit NamedSiteDescription" where
  "site_s1 = \<lparr>site_name = ''s1'', owner_name = ''p1'', admin_name = ''p1'', site_rest = ()\<rparr>"

definition registry_empty :: "(string, unit) Registry" where
  "registry_empty = \<lparr>asset_locations = Map.empty, canonical_store = []\<rparr>"

definition registry_p1 :: "(string, unit) Registry" where
  "registry_p1 = \<lparr>asset_locations = Map.empty, canonical_store = [Party party_p1]\<rparr>"

definition registry_p1_s1 :: "(string, unit) Registry" where
  "registry_p1_s1 = \<lparr>asset_locations = Map.empty, canonical_store = [Party party_p1, Site site_s1]\<rparr>"

section \<open>The step runner (components/step\_runner.py)\<close>

record Plan =
  step_sites :: "string \<rightharpoonup> Identifier"

record JobSubmission =
  submission_job :: Job
  submission_plan :: Plan

text \<open>
  What a run changes: the target store. Three counters record what the run did: the
  number of requests sent to sites, the names of the steps whose compute asset was
  run, in order, and the number of times the run slept.
\<close>

record ('d, 'c) RunState =
  target_store :: "('d, 'c) AssetStore"
  requests :: nat
  executed :: "string list"
  sleeps :: nat

text \<open>
  A \<open>JobRun\<close> object. Its collaborators are not among the sources and are fields
  here: the policy evaluator, \<open>Job.id_hashes()\<close> and \<open>Job.subjob(step)\<close>,
  \<open>ComputeAsset.run(inputs)\<close>, and \<open>SiteRestClient.retrieve_asset(site, id)\<close>. What
  a site answers may depend on everything that has happened so far, so the request
  reads the run state (the target store, which the site asked may be this one, and the
  counters).
\<close>

record ('d, 'c, 'p) JobRun =
  policy_evaluator :: "'p Policy"
  this_site :: Identifier
  submission :: JobSubmission
  id_hashes :: "Job \<Rightarrow> error + (string \<rightharpoonup> string)"
  subjob :: "Job \<Rightarrow> WorkflowStep \<Rightarrow> error + Job"
  retrieve_asset :: "('d, 'c) RunState \<Rightarrow> Identifier \<Rightarrow> Identifier \<Rightarrow> error + ('d, 'c) Asset"
  compute_run :: "'c \<Rightarrow> (string \<rightharpoonup> 'd) \<Rightarrow> error + (string \<times> 'd) list"

definition sites :: "('d, 'c, 'p) JobRun \<Rightarrow> string \<rightharpoonup> Identifier" where
  "sites self = step_sites (submission_plan (submission self))"

definition the_job :: "('d, 'c, 'p) JobRun \<Rightarrow> Job" where
  "the_job self = submission_job (submission self)"

text \<open>\<open>'{}.{}'.format(a, b)\<close>.\<close>

definition dotted :: "string \<Rightarrow> string \<Rightarrow> string" where
  "dotted a b = a @ ''.'' @ b"

subsection \<open>The legality check\<close>

text \<open>
  The site an input will be downloaded from, as \<open>_is_legal\<close> finds it. Unpacking
  \<open>inp_src.split('.')\<close> into two names raises \<open>ValueError\<close> unless there are
  exactly two parts.
\<close>

definition legal_src_site :: "('d, 'c, 'p) JobRun \<Rightarrow> string \<Rightarrow> error + Identifier" where
  "legal_src_site self inp_src =
     (if CHR ''.'' \<in> set inp_src then
        (case split_on CHR ''.'' inp_src of
           [src_step, u] \<Rightarrow>
             (case sites self src_step of None \<Rightarrow> Inl KeyError | Some s \<Rightarrow> Inr s)
         | _ \<Rightarrow> Inl ValueError)
      else
        (case job_inputs (the_job self) inp_src of
           None \<Rightarrow> Inl KeyError
         | Some inp_asset_id \<Rightarrow> location inp_asset_id))"

text \<open>
  The three loops of \<open>_is_legal\<close>. Each yields \<open>Inr False\<close> where the code returns
  \<open>False\<close>, \<open>Inr True\<close> where the loop runs to its end, and \<open>Inl\<close> where a
  lookup raises.
\<close>

fun legal_inputs ::
  "('d, 'c, 'p) JobRun \<Rightarrow> (string \<rightharpoonup> 'p) \<Rightarrow> string \<Rightarrow> (string \<times> string) list \<Rightarrow> error + bool" where
  "legal_inputs self perms sname [] = Inr True"
| "legal_inputs self perms sname ((inp_name, inp_src) # rest) =
     (case perms (dotted sname inp_name) of
        None \<Rightarrow> Inl KeyError
      | Some inp_perms \<Rightarrow>
          if \<not> may_access (policy_evaluator self) inp_perms (this_site self) then Inr False
          else (case legal_src_site self inp_src of
                  Inl e \<Rightarrow> Inl e
                | Inr src_site \<Rightarrow>
                    (case perms inp_src of
                       None \<Rightarrow> Inl KeyError
                     | Some src_perms \<Rightarrow>
                         if \<not> may_access (policy_evaluator self) src_perms src_site
                         then Inr False
                         else legal_inputs self perms sname rest)))"

fun legal_outputs ::
  "('d, 'c, 'p) JobRun \<Rightarrow> (string \<rightharpoonup> 'p) \<Rightarrow> string \<Rightarrow> string list \<Rightarrow> error + bool" where
  "legal_outputs self perms sname [] = Inr True"
| "legal_outputs self perms sname (outp_name # rest) =
     (case perms (dotted sname outp_name) of
        None \<Rightarrow> Inl KeyError
      | Some outp_perms \<Rightarrow>
          if \<not> may_access (policy_evaluator self) outp_perms (this_site self) then Inr False
          else legal_outputs self perms sname rest)"

fun legal_steps ::
  "('d, 'c, 'p) JobRun \<Rightarrow> (string \<rightharpoonup> 'p) \<Rightarrow> WorkflowStep list \<Rightarrow> error + bool" where
  "legal_steps self perms [] = Inr True"
| "legal_steps self perms (step # rest) =
     (case sites self (step_name step) of
        None \<Rightarrow> Inl KeyError
      | Some site \<Rightarrow>
          if site = this_site self then
            (case legal_inputs self perms (step_name step) (step_inputs step) of
               Inl e \<Rightarrow> Inl e
             | Inr ok_in \<Rightarrow>
                 if \<not> ok_in then Inr False
                 else (case perms (step_name step) of
                         None \<Rightarrow> Inl KeyError
                       | Some step_perms \<Rightarrow>
                           if \<not> may_access (policy_evaluator self) step_perms (this_site self)
                           then Inr False
                           else (case legal_outputs self perms (step_name step)
                                        (step_outputs step) of
                                   Inl e \<Rightarrow> Inl e
                                 | Inr ok_out \<Rightarrow>
                                     if \<not> ok_out then Inr False
                                     else legal_steps self perms rest)))
          else legal_steps self perms rest)"

definition is_legal :: "('d, 'c, 'p) JobRun \<Rightarrow> error + bool" where
  "is_legal self =
     (case calculate_permissions (policy_evaluator self) (the_job self) of
        Inl e \<Rightarrow> Inl e
      | Inr perms \<Rightarrow> legal_steps self perms (map snd (steps (workflow (the_job self)))))"

subsection \<open>Retrieving the inputs of a step\<close>

definition tick :: "('d, 'c) RunState \<Rightarrow> ('d, 'c) RunState" where
  "tick st = st\<lparr>requests := Suc (requests st)\<rparr>"

text \<open>\<open>_source\<close>: the site and the asset identifier of an input.\<close>

definition source ::
  "('d, 'c, 'p) JobRun \<Rightarrow> (string \<rightharpoonup> string) \<Rightarrow> string \<Rightarrow> error + Identifier \<times> Identifier" where
  "source self idh inp_source =
     (if CHR ''.'' \<in> set inp_source then
        (case split_on CHR ''.'' inp_source of
           [sname, output_name] \<Rightarrow>
             (case sites self sname of
                None \<Rightarrow> Inl KeyError
              | Some site \<Rightarrow>
                  (case idh inp_source of
                     None \<Rightarrow> Inl KeyError
                   | Some h \<Rightarrow>
                       (case from_id_hash h of
                          Inl e \<Rightarrow> Inl e
                        | Inr rid \<Rightarrow> Inr (site, rid))))
         | _ \<Rightarrow> Inl ValueError)
      else
        (case job_inputs (the_job self) inp_source of
           None \<Rightarrow> Inl KeyError
         | Some dataset \<Rightarrow>
             (case location dataset of
                Inl e \<Rightarrow> Inl e
              | Inr site \<Rightarrow> Inr (site, dataset))))"

text \<open>
  The loop of \<open>_get_step_inputs\<close>, with the dictionary built so far. Only the
  request and the read of \<open>asset.data\<close> stand inside the \<open>try\<close>: a \<open>KeyError\<close>
  there makes the method return \<open>None\<close>, any other exception leaves it.
\<close>

fun get_inputs_loop ::
  "('d, 'c, 'p) JobRun \<Rightarrow> (string \<rightharpoonup> string) \<Rightarrow> (string \<times> string) list
     \<Rightarrow> (string \<rightharpoonup> 'd) \<Rightarrow> ('d, 'c) RunState
     \<Rightarrow> (error + (string \<rightharpoonup> 'd) option) \<times> ('d, 'c) RunState" where
  "get_inputs_loop self idh [] step_input_data st = (Inr (Some step_input_data), st)"
| "get_inputs_loop self idh ((inp_name, inp_source) # rest) step_input_data st =
     (case source self idh inp_source of
        Inl e \<Rightarrow> (Inl e, st)
      | Inr (source_site, source_asset) \<Rightarrow>
          (case retrieve_asset self st source_site source_asset of
             Inl e \<Rightarrow> if e = KeyError then (Inr None, tick st) else (Inl e, tick st)
           | Inr asset \<Rightarrow>
               (case asset_data asset of
                  Inl e \<Rightarrow> if e = KeyError then (Inr None, tick st) else (Inl e, tick st)
                | Inr d \<Rightarrow>
                    get_inputs_loop self idh rest (step_input_data(inp_name \<mapsto> d))
                      (tick st))))"

definition get_step_inputs ::
  "('d, 'c, 'p) JobRun \<Rightarrow> WorkflowStep \<Rightarrow> (string \<rightharpoonup> string) \<Rightarrow> ('d, 'c) RunState
     \<Rightarrow> (error + (string \<rightharpoonup> 'd) option) \<times> ('d, 'c) RunState" where
  "get_step_inputs self step idh st = get_inputs_loop self idh (step_inputs step) Map.empty st"

text \<open>\<open>_retrieve_compute_asset\<close>: yields the callable of the compute asset.\<close>

definition retrieve_compute_asset ::
  "('d, 'c, 'p) JobRun \<Rightarrow> Identifier \<Rightarrow> ('d, 'c) RunState \<Rightarrow> (error + 'c) \<times> ('d, 'c) RunState" where
  "retrieve_compute_asset self cid st =
     (case location cid of
        Inl e \<Rightarrow> (Inl e, st)
      | Inr site \<Rightarrow>
          (case retrieve_asset self st site cid of
             Inl e \<Rightarrow> (Inl e, tick st)
           | Inr (DataAsset i d m) \<Rightarrow> (Inl TypeError, tick st)
           | Inr (ComputeAsset i c m) \<Rightarrow> (Inr c, tick st)))"

subsection \<open>Running a step\<close>

text \<open>The loop that saves the outputs of a step to the target store.\<close>

fun store_outputs ::
  "(string \<rightharpoonup> string) \<Rightarrow> Job \<Rightarrow> string \<Rightarrow> (string \<times> 'd) list \<Rightarrow> ('d, 'c) AssetStore
     \<Rightarrow> (error + unit) \<times> ('d, 'c) AssetStore" where
  "store_outputs idh step_subjob sname [] ts = (Inr (), ts)"
| "store_outputs idh step_subjob sname ((output_name, output_value) # rest) ts =
     (let result_item = dotted sname output_name in
      case idh result_item of
        None \<Rightarrow> (Inl KeyError, ts)
      | Some result_id_hash \<Rightarrow>
          (let md = \<lparr>job = step_subjob, item = result_item\<rparr> in
           case from_id_hash result_id_hash of
             Inl e \<Rightarrow> (Inl e, ts)
           | Inr rid \<Rightarrow>
               (case AssetStore_store ts (DataAsset rid output_value md) of
                  (Inl e, ts') \<Rightarrow> (Inl e, ts')
                | (Inr u, ts') \<Rightarrow> store_outputs idh step_subjob sname rest ts')))"

text \<open>
  The body of the \<open>if inputs is not None\<close> branch up to \<open>steps_to_do.remove(step)\<close>:
  run the compute asset, take the sub-job of the step, save the outputs.
\<close>

definition execute_step ::
  "('d, 'c, 'p) JobRun \<Rightarrow> (string \<rightharpoonup> string) \<Rightarrow> WorkflowStep \<Rightarrow> 'c \<Rightarrow> (string \<rightharpoonup> 'd)
     \<Rightarrow> ('d, 'c) RunState \<Rightarrow> (error + unit) \<times> ('d, 'c) RunState" where
  "execute_step self idh step compute_asset inputs st =
     (let st1 = st\<lparr>executed := executed st @ [step_name step]\<rparr> in
      case compute_run self compute_asset inputs of
        Inl e \<Rightarrow> (Inl e, st1)
      | Inr outputs \<Rightarrow>
          (case subjob self (the_job self) step of
             Inl e \<Rightarrow> (Inl e, st1)
           | Inr step_subjob \<Rightarrow>
               (case store_outputs idh step_subjob (step_name step) outputs (target_store st1) of
                  (r, ts') \<Rightarrow> (r, st1\<lparr>target_store := ts'\<rparr>))))"

text \<open>
  One pass of the body of \<open>for step in steps_to_do\<close>: the step is executed, or
  skipped because an input is not yet available, or an exception leaves the run.
\<close>

datatype attempt = Executed | Skipped | Raised error

definition attempt_step ::
  "('d, 'c, 'p) JobRun \<Rightarrow> (string \<rightharpoonup> string) \<Rightarrow> WorkflowStep \<Rightarrow> ('d, 'c) RunState
     \<Rightarrow> attempt \<times> ('d, 'c) RunState" where
  "attempt_step self idh step st =
     (case get_step_inputs self step idh st of
        (Inl e, st1) \<Rightarrow> (Raised e, st1)
      | (Inr inputs, st1) \<Rightarrow>
          (case retrieve_compute_asset self (compute_asset_id step) st1 of
             (Inl e, st2) \<Rightarrow> (Raised e, st2)
           | (Inr compute_asset, st2) \<Rightarrow>
               (case inputs of
                  None \<Rightarrow> (Skipped, st2)
                | Some inp \<Rightarrow>
                    (case execute_step self idh step compute_asset inp st2 of
                       (Inl e, st3) \<Rightarrow> (Raised e, st3)
                     | (Inr u, st3) \<Rightarrow> (Executed, st3)))))"

subsection \<open>The loop of run\<close>

text \<open>
  The \<open>for\<close> loop over the steps still to do: it breaks at the first step executed
  and reaches its \<open>else\<close> branch when every step was skipped.
\<close>

datatype scan = Progress WorkflowStep | NoProgress | ScanRaised error

fun scan_steps ::
  "('d, 'c, 'p) JobRun \<Rightarrow> (string \<rightharpoonup> string) \<Rightarrow> WorkflowStep list \<Rightarrow> ('d, 'c) RunState
     \<Rightarrow> scan \<times> ('d, 'c) RunState" where
  "scan_steps self idh [] st = (NoProgress, st)"
| "scan_steps self idh (step # rest) st =
     (case attempt_step self idh step st of
        (Raised e, st') \<Rightarrow> (ScanRaised e, st')
      | (Skipped, st') \<Rightarrow> scan_steps self idh rest st'
      | (Executed, st') \<Rightarrow> (Progress step, st'))"

definition sleep :: "('d, 'c) RunState \<Rightarrow> ('d, 'c) RunState" where
  "sleep st = st\<lparr>sleeps := Suc (sleeps st)\<rparr>"

text \<open>
  The \<open>while\<close> loop may run forever; the first argument bounds the number of passes,
  and \<open>None\<close> is the loop still running when the bound is reached. The set
  \<open>steps_to_do\<close> is a list in the order the \<open>for\<close> loop visits it.
\<close>

fun run_loop ::
  "nat \<Rightarrow> ('d, 'c, 'p) JobRun \<Rightarrow> (string \<rightharpoonup> string) \<Rightarrow> WorkflowStep list \<Rightarrow> ('d, 'c) RunState
     \<Rightarrow> (error + unit) option \<times> ('d, 'c) RunState" where
  "run_loop fuel self idh [] st = (Some (Inr ()), st)"
| "run_loop 0 self idh (step # rest) st = (None, st)"
| "run_loop (Suc fuel) self idh (step # rest) st =
     (case scan_steps self idh (step # rest) st of
        (ScanRaised e, st') \<Rightarrow> (Some (Inl e), st')
      | (Progress done, st') \<Rightarrow> run_loop fuel self idh (remove1 done (step # rest)) st'
      | (NoProgress, st') \<Rightarrow> run_loop fuel self idh (step # rest) (sleep st'))"

text \<open>The steps of the workflow whose site in the plan is this site.\<close>

fun local_steps :: "('d, 'c, 'p) JobRun \<Rightarrow> WorkflowStep list \<Rightarrow> error + WorkflowStep list" where
  "local_steps self [] = Inr []"
| "local_steps self (step # rest) =
     (case sites self (step_name step) of
        None \<Rightarrow> Inl KeyError
      | Some site \<Rightarrow>
          (case local_steps self rest of
             Inl e \<Rightarrow> Inl e
           | Inr todo \<Rightarrow> if site = this_site self then Inr (step # todo) else Inr todo))"

definition run ::
  "nat \<Rightarrow> ('d, 'c, 'p) JobRun \<Rightarrow> ('d, 'c) RunState \<Rightarrow> (error + unit) option \<times> ('d, 'c) RunState" where
  "run fuel self st =
     (case is_legal self of
        Inl e \<Rightarrow> (Some (Inl e), st)
      | Inr legal \<Rightarrow>
          if \<not> legal then (Some (Inl RuntimeError), st)
          else (case id_hashes self (the_job self) of
                  Inl e \<Rightarrow> (Some (Inl e), st)
                | Inr idh \<Rightarrow>
                    (case local_steps self (map snd (steps (workflow (the_job self)))) of
                       Inl e \<Rightarrow> (Some (Inl e), st)
                     | Inr steps_to_do \<Rightarrow> run_loop fuel self idh steps_to_do st)))"

section \<open>The earlier runner (local\_workflow\_runner.py)\<close>

text \<open>
  This runner is named by a string and acts for the party that administrates it; its
  plan maps steps to runner names and input assets to store names, and it saves its
  results in a store of the earlier kind. A step names its compute asset by a string
  (\<open>step.compute_asset\<close>, the field \<open>compute_asset_id\<close> here).
\<close>

record lwr_Plan =
  step_runners :: "(WorkflowStep \<times> string) list"
  input_stores :: "string \<rightharpoonup> string"

record 'd lwr_RunState =
  lwr_target_store :: "'d poc_AssetStore"
  lwr_requests :: nat
  lwr_executed :: "string list"
  lwr_sleeps :: nat

text \<open>
  The \<open>JobRun\<close> object of this runner. The policy manager and evaluator,
  \<open>Job.keys()\<close> and \<open>Job.subjob(step)\<close> are not among the sources and are fields
  here, and so are the four demonstration operators on the data, whose values the
  sources leave untyped. The runner also calls four methods of its \<open>DDMClient\<close>:
  \<open>get_runner_administrator\<close>, \<open>get_store_administrator\<close>,
  \<open>get_target_store\<close> and \<open>retrieve_data\<close>. The class \<open>DDMClient\<close> of
  \<open>ddm_client.py\<close> defines none of them, so with that class each call raises
  \<open>AttributeError\<close>; they are fields as well, and what is proved for every value of
  the fields holds for that class and for one that defines them.
\<close>

record ('d, 'p) lwr_JobRun =
  lwr_policy :: "'p Policy"
  this_runner :: string
  administrator :: string
  lwr_job :: Job
  lwr_plan :: lwr_Plan
  get_runner_administrator :: "string \<Rightarrow> error + string"
  get_store_administrator :: "string \<Rightarrow> error + string"
  get_target_store :: "string \<Rightarrow> error + string"
  retrieve_data :: "'d lwr_RunState \<Rightarrow> string \<Rightarrow> string \<Rightarrow> error + 'd \<times> Metadata"
  job_keys :: "Job \<Rightarrow> error + (string \<rightharpoonup> string)"
  lwr_subjob :: "Job \<Rightarrow> WorkflowStep \<Rightarrow> error + Job"
  combine :: "'d \<Rightarrow> 'd \<Rightarrow> error + 'd"
  anonymise :: "'d \<Rightarrow> error + 'd"
  aggregate :: "'d \<Rightarrow> error + 'd"
  addition :: "'d \<Rightarrow> 'd \<Rightarrow> error + 'd"

text \<open>
  \<open>self._runners\<close>, the dictionary
  \<open>{step.name: runner for step, runner in plan.step_runners.items()}\<close>: a later
  entry of the same name replaces an earlier one.
\<close>

fun runners_of :: "(WorkflowStep \<times> string) list \<Rightarrow> (string \<rightharpoonup> string) \<Rightarrow> (string \<rightharpoonup> string)" where
  "runners_of [] m = m"
| "runners_of ((step, r) # rest) m = runners_of rest (m(step_name step \<mapsto> r))"

definition runners :: "('d, 'p) lwr_JobRun \<Rightarrow> string \<rightharpoonup> string" where
  "runners self = runners_of (step_runners (lwr_plan self)) Map.empty"

subsection \<open>The legality check of the earlier runner\<close>

definition lwr_src_party :: "('d, 'p) lwr_JobRun \<Rightarrow> string \<Rightarrow> error + string" where
  "lwr_src_party self inp_src =
     (if CHR ''.'' \<in> set inp_src then
        (case split_on CHR ''.'' inp_src of
           [src_step, u] \<Rightarrow>
             (case runners self src_step of
                None \<Rightarrow> Inl KeyError
              | Some r \<Rightarrow> get_runner_administrator self r)
         | _ \<Rightarrow> Inl ValueError)
      else
        (case job_inputs (lwr_job self) inp_src of
           None \<Rightarrow> Inl KeyError
         | Some inp_asset_id \<Rightarrow>
             (case input_stores (lwr_plan self) inp_asset_id of
                None \<Rightarrow> Inl KeyError
              | Some st \<Rightarrow> get_store_administrator self st)))"

fun lwr_legal_inputs ::
  "('d, 'p) lwr_JobRun \<Rightarrow> (string \<rightharpoonup> 'p) \<Rightarrow> string \<Rightarrow> (string \<times> string) list \<Rightarrow> error + bool" where
  "lwr_legal_inputs self perms sname [] = Inr True"
| "lwr_legal_inputs self perms sname ((inp_name, inp_src) # rest) =
     (case perms (dotted sname inp_name) of
        None \<Rightarrow> Inl KeyError
      | Some inp_perms \<Rightarrow>
          if \<not> may_access (lwr_policy self) inp_perms (administrator self) then Inr False
          else (case lwr_src_party self inp_src of
                  Inl e \<Rightarrow> Inl e
                | Inr src_party \<Rightarrow>
                    (case perms inp_src of
                       None \<Rightarrow> Inl KeyError
                     | Some src_perms \<Rightarrow>
                         if \<not> may_access (lwr_policy self) src_perms src_party
                         then Inr False
                         else lwr_legal_inputs self perms sname rest)))"

fun lwr_legal_steps ::
  "('d, 'p) lwr_JobRun \<Rightarrow> (string \<rightharpoonup> 'p) \<Rightarrow> WorkflowStep list \<Rightarrow> error + bool" where
  "lwr_legal_steps self perms [] = Inr True"
| "lwr_legal_steps self perms (step # rest) =
     (case runners self (step_name step) of
        None \<Rightarrow> Inl KeyError
      | Some r \<Rightarrow>
          if r = this_runner self then
            (case lwr_legal_inputs self perms (step_name step) (step_inputs step) of
               Inl e \<Rightarrow> Inl e
             | Inr ok_in \<Rightarrow>
                 if \<not> ok_in then Inr False
                 else (case perms (step_name step) of
                         None \<Rightarrow> Inl KeyError
                       | Some step_perms \<Rightarrow>
                           if \<not> may_access (lwr_policy self) step_perms (administrator self)
                           then Inr False
                           else lwr_legal_steps self perms rest))
          else lwr_legal_steps self perms rest)"

definition lwr_is_legal :: "('d, 'p) lwr_JobRun \<Rightarrow> error + bool" where
  "lwr_is_legal self =
     (case calculate_permissions (lwr_policy self) (lwr_job self) of
        Inl e \<Rightarrow> Inl e
      | Inr perms \<Rightarrow> lwr_legal_steps self perms (map snd (steps (workflow (lwr_job self)))))"

subsection \<open>The loop of the earlier runner\<close>

definition lwr_tick :: "'d lwr_RunState \<Rightarrow> 'd lwr_RunState" where
  "lwr_tick st = st\<lparr>lwr_requests := Suc (lwr_requests st)\<rparr>"

definition lwr_source ::
  "('d, 'p) lwr_JobRun \<Rightarrow> (string \<rightharpoonup> string) \<Rightarrow> string \<Rightarrow> error + string \<times> string" where
  "lwr_source self keys inp_source =
     (if CHR ''.'' \<in> set inp_source then
        (case split_on CHR ''.'' inp_source of
           [sname, output_name] \<Rightarrow>
             (case runners self sname of
                None \<Rightarrow> Inl KeyError
              | Some src_runner_name \<Rightarrow>
                  (case get_target_store self src_runner_name of
                     Inl e \<Rightarrow> Inl e
                   | Inr src_store \<Rightarrow>
                       (case keys inp_source of
                          None \<Rightarrow> Inl KeyError
                        | Some k \<Rightarrow> Inr (src_store, k))))
         | _ \<Rightarrow> Inl ValueError)
      else
        (case job_inputs (lwr_job self) inp_source of
           None \<Rightarrow> Inl KeyError
         | Some dataset \<Rightarrow>
             (case input_stores (lwr_plan self) dataset of
                None \<Rightarrow> Inl KeyError
              | Some st \<Rightarrow> Inr (st, dataset))))"

fun lwr_get_inputs_loop ::
  "('d, 'p) lwr_JobRun \<Rightarrow> (string \<rightharpoonup> string) \<Rightarrow> (string \<times> string) list
     \<Rightarrow> (string \<rightharpoonup> 'd) \<Rightarrow> 'd lwr_RunState
     \<Rightarrow> (error + (string \<rightharpoonup> 'd) option) \<times> 'd lwr_RunState" where
  "lwr_get_inputs_loop self keys [] step_input_data st = (Inr (Some step_input_data), st)"
| "lwr_get_inputs_loop self keys ((inp_name, inp_source) # rest) step_input_data st =
     (case lwr_source self keys inp_source of
        Inl e \<Rightarrow> (Inl e, st)
      | Inr (source_store, data_key) \<Rightarrow>
          (case retrieve_data self st source_store data_key of
             Inl e \<Rightarrow> if e = KeyError then (Inr None, lwr_tick st) else (Inl e, lwr_tick st)
           | Inr (d, md) \<Rightarrow>
               lwr_get_inputs_loop self keys rest (step_input_data(inp_name \<mapsto> d))
                 (lwr_tick st)))"

definition lwr_get_step_inputs ::
  "('d, 'p) lwr_JobRun \<Rightarrow> WorkflowStep \<Rightarrow> (string \<rightharpoonup> string) \<Rightarrow> 'd lwr_RunState
     \<Rightarrow> (error + (string \<rightharpoonup> 'd) option) \<times> 'd lwr_RunState" where
  "lwr_get_step_inputs self step keys st =
     lwr_get_inputs_loop self keys (step_inputs step) Map.empty st"

text \<open>\<open>inputs[k]\<close>.\<close>

definition lookup :: "(string \<rightharpoonup> 'd) \<Rightarrow> string \<Rightarrow> error + 'd" where
  "lookup m k = (case m k of None \<Rightarrow> Inl KeyError | Some v \<Rightarrow> Inr v)"

text \<open>The chain \<open>if step.compute_asset == 'Combine' ... else raise\<close>.\<close>

definition lwr_compute ::
  "('d, 'p) lwr_JobRun \<Rightarrow> string \<Rightarrow> (string \<rightharpoonup> 'd) \<Rightarrow> error + (string \<times> 'd) list" where
  "lwr_compute self compute_asset inputs =
     (if compute_asset = ''Combine'' then
        (case lookup inputs ''x1'' of
           Inl e \<Rightarrow> Inl e
         | Inr x1 \<Rightarrow>
             (case lookup inputs ''x2'' of
                Inl e \<Rightarrow> Inl e
              | Inr x2 \<Rightarrow>
                  (case combine self x1 x2 of Inl e \<Rightarrow> Inl e | Inr y \<Rightarrow> Inr [(''y'', y)])))
      else if compute_asset = ''Anonymise'' then
        (case lookup inputs ''x1'' of
           Inl e \<Rightarrow> Inl e
         | Inr x1 \<Rightarrow>
             (case anonymise self x1 of Inl e \<Rightarrow> Inl e | Inr y \<Rightarrow> Inr [(''y'', y)]))
      else if compute_asset = ''Aggregate'' then
        (case lookup inputs ''x1'' of
           Inl e \<Rightarrow> Inl e
         | Inr x1 \<Rightarrow>
             (case aggregate self x1 of Inl e \<Rightarrow> Inl e | Inr y \<Rightarrow> Inr [(''y'', y)]))
      else if compute_asset = ''Addition'' then
        (case lookup inputs ''x1'' of
           Inl e \<Rightarrow> Inl e
         | Inr x1 \<Rightarrow>
             (case lookup inputs ''x2'' of
                Inl e \<Rightarrow> Inl e
              | Inr x2 \<Rightarrow>
                  (case addition self x1 x2 of Inl e \<Rightarrow> Inl e | Inr y \<Rightarrow> Inr [(''y'', y)])))
      else Inl RuntimeError)"

fun lwr_store_outputs ::
  "(string \<rightharpoonup> string) \<Rightarrow> Job \<Rightarrow> string \<Rightarrow> (string \<times> 'd) list \<Rightarrow> 'd poc_AssetStore
     \<Rightarrow> (error + unit) \<times> 'd poc_AssetStore" where
  "lwr_store_outputs keys step_subjob sname [] ts = (Inr (), ts)"
| "lwr_store_outputs keys step_subjob sname ((output_name, output_value) # rest) ts =
     (let result_item = dotted sname output_name in
      case keys result_item of
        None \<Rightarrow> (Inl KeyError, ts)
      | Some result_key \<Rightarrow>
          (let md = \<lparr>job = step_subjob, item = result_item\<rparr> in
           case poc_store ts result_key output_value md of
             (Inl e, ts') \<Rightarrow> (Inl e, ts')
           | (Inr u, ts') \<Rightarrow> lwr_store_outputs keys step_subjob sname rest ts'))"

definition lwr_execute_step ::
  "('d, 'p) lwr_JobRun \<Rightarrow> (string \<rightharpoonup> string) \<Rightarrow> WorkflowStep \<Rightarrow> (string \<rightharpoonup> 'd)
     \<Rightarrow> 'd lwr_RunState \<Rightarrow> (error + unit) \<times> 'd lwr_RunState" where
  "lwr_execute_step self keys step inputs st =
     (let st1 = st\<lparr>lwr_executed := lwr_executed st @ [step_name step]\<rparr> in
      case lwr_compute self (compute_asset_id step) inputs of
        Inl e \<Rightarrow> (Inl e, st1)
      | Inr outputs \<Rightarrow>
          (case lwr_subjob self (lwr_job self) step of
             Inl e \<Rightarrow> (Inl e, st1)
           | Inr step_subjob \<Rightarrow>
               (case lwr_store_outputs keys step_subjob (step_name step) outputs
                       (lwr_target_store st1) of
                  (r, ts') \<Rightarrow> (r, st1\<lparr>lwr_target_store := ts'\<rparr>))))"

definition lwr_attempt_step ::
  "('d, 'p) lwr_JobRun \<Rightarrow> (string \<rightharpoonup> string) \<Rightarrow> WorkflowStep \<Rightarrow> 'd lwr_RunState
     \<Rightarrow> attempt \<times> 'd lwr_RunState" where
  "lwr_attempt_step self keys step st =
     (case lwr_get_step_inputs self step keys st of
        (Inl e, st1) \<Rightarrow> (Raised e, st1)
      | (Inr None, st1) \<Rightarrow> (Skipped, st1)
      | (Inr (Some inp), st1) \<Rightarrow>
          (case lwr_execute_step self keys step inp st1 of
             (Inl e, st2) \<Rightarrow> (Raised e, st2)
           | (Inr u, st2) \<Rightarrow> (Executed, st2)))"

fun lwr_scan_steps ::
  "('d, 'p) lwr_JobRun \<Rightarrow> (string \<rightharpoonup> string) \<Rightarrow> WorkflowStep list \<Rightarrow> 'd lwr_RunState
     \<Rightarrow> scan \<times> 'd lwr_RunState" where
  "lwr_scan_steps self keys [] st = (NoProgress, st)"
| "lwr_scan_steps self keys (step # rest) st =
     (case lwr_attempt_step self keys step st of
        (Raised e, st') \<Rightarrow> (ScanRaised e, st')
      | (Skipped, st') \<Rightarrow> lwr_scan_steps self keys rest st'
      | (Executed, st') \<Rightarrow> (Progress step, st'))"

definition lwr_sleep :: "'d lwr_RunState \<Rightarrow> 'd lwr_RunState" where
  "lwr_sleep st = st\<lparr>lwr_sleeps := Suc (lwr_sleeps st)\<rparr>"

fun lwr_run_loop ::
  "nat \<Rightarrow> ('d, 'p) lwr_JobRun \<Rightarrow> (string \<rightharpoonup> string) \<Rightarrow> WorkflowStep list \<Rightarrow> 'd lwr_RunState
     \<Rightarrow> (error + unit) option \<times> 'd lwr_RunState" where
  "lwr_run_loop fuel self keys [] st = (Some (Inr ()), st)"
| "lwr_run_loop 0 self keys (step # rest) st = (None, st)"
| "lwr_run_loop (Suc fuel) self keys (step # rest) st =
     (case lwr_scan_steps self keys (step # rest) st of
        (ScanRaised e, st') \<Rightarrow> (Some (Inl e), st')
      | (Progress done, st') \<Rightarrow> lwr_run_loop fuel self keys (remove1 done (step # rest)) st'
      | (NoProgress, st') \<Rightarrow> lwr_run_loop fuel self keys (step # rest) (lwr_sleep st'))"

fun lwr_local_steps :: "('d, 'p) lwr_JobRun \<Rightarrow> WorkflowStep list \<Rightarrow> error + WorkflowStep list" where
  "lwr_local_steps self [] = Inr []"
| "lwr_local_steps self (step # rest) =
     (case runners self (step_name step) of
        None \<Rightarrow> Inl KeyError
      | Some r \<Rightarrow>
          (case lwr_local_steps self rest of
             Inl e \<Rightarrow> Inl e
           | Inr todo \<Rightarrow> if r = this_runner self then Inr (step # todo) else Inr todo))"

definition lwr_run ::
  "nat \<Rightarrow> ('d, 'p) lwr_JobRun \<Rightarrow> 'd lwr_RunState \<Rightarrow> (error + unit) option \<times> 'd lwr_RunState" where
  "lwr_run fuel self st =
     (case lwr_is_legal self of
        Inl e \<Rightarrow> (Some (Inl e), st)
      | Inr legal \<Rightarrow>
          if \<not> legal then (Some (Inl RuntimeError), st)
          else (case job_keys self (lwr_job self) of
                  Inl e \<Rightarrow> (Some (Inl e), st)
                | Inr keys \<Rightarrow>
                    (case lwr_local_steps self (map snd (steps (workflow (lwr_job self)))) of
                       Inl e \<Rightarrow> (Some (Inl e), st)
                     | Inr steps_to_do \<Rightarrow> lwr_run_loop fuel self keys steps_to_do st)))"

section \<open>A one-step job\<close>

text \<open>
  The single-site scenario: step \<open>A\<close> applies a compute asset to the workflow input
  \<open>x\<close> and yields the output \<open>y\<close>. A permission is the list of those who may
  access the item.
\<close>

definition step_A :: WorkflowStep where
  "step_A = \<lparr>step_name = ''A'', step_inputs = [(''in'', ''x'')], step_outputs = [''y''],
              compute_asset_id = ''asset:ns1:identity:ns1:s1''\<rparr>"

definition job_1 :: Job where
  "job_1 = \<lparr>workflow = \<lparr>steps = [(''A'', step_A)]\<rparr>,
             job_inputs = [''x'' \<mapsto> ''asset:ns1:x:ns1:s1'']\<rparr>"

definition perms_open :: "string \<rightharpoonup> string list" where
  "perms_open = [''x'' \<mapsto> [''site:ns1:s1''], ''A.in'' \<mapsto> [''site:ns1:s1''],
                 ''A'' \<mapsto> [''site:ns1:s1''], ''A.y'' \<mapsto> [''site:ns1:s1'']]"

definition policy_open :: "string list Policy" where
  "policy_open = \<lparr>calculate_permissions = (\<lambda>j. Inr perms_open),
                   may_access = (\<lambda>perm who. who \<in> set perm)\<rparr>"

definition result_y :: "(int list, nat) Asset" where
  "result_y = DataAsset ''result:0a1b'' [1, 2, 3] \<lparr>job = job_1, item = ''A.y''\<rparr>"

definition store_empty :: "(int list, nat) AssetStore" where
  "store_empty = \<lparr>assets = Map.empty\<rparr>"

definition store_y :: "(int list, nat) AssetStore" where
  "store_y = \<lparr>assets = [''result:0a1b'' \<mapsto> result_y]\<rparr>"

definition poc_store_empty :: "int list poc_AssetStore" where
  "poc_store_empty = \<lparr>poc_name = ''s1'', poc_assets = Map.empty, poc_metadata = Map.empty\<rparr>"

definition poc_store_y :: "int list poc_AssetStore" where
  "poc_store_y = \<lparr>poc_name = ''s1'', poc_assets = [''0a1b'' \<mapsto> [1, 2, 3]],
                   poc_metadata = [''0a1b'' \<mapsto> \<lparr>job = job_1, item = ''A.y''\<rparr>]\<rparr>"

text \<open>
  A run of the job at site \<open>s1\<close>. The compute asset yields its input \<open>in\<close> as
  the output \<open>y\<close>. The store of the site serves the compute asset at once, and the
  input \<open>x\<close> only once the run has slept: before that the request for it raises
  \<open>KeyError\<close>.
\<close>

definition job_0 :: Job where
  "job_0 = \<lparr>workflow = \<lparr>steps = []\<rparr>, job_inputs = Map.empty\<rparr>"

definition site_answers ::
  "(int list, nat) RunState \<Rightarrow> Identifier \<Rightarrow> Identifier \<Rightarrow> error + (int list, nat) Asset" where
  "site_answers st site aid =
     (if aid = ''asset:ns1:identity:ns1:s1''
      then Inr (ComputeAsset aid 0 \<lparr>job = job_0, item = []\<rparr>)
      else if aid = ''asset:ns1:x:ns1:s1'' \<and> 0 < sleeps st
      then Inr (DataAsset aid [1, 2, 3] \<lparr>job = job_0, item = []\<rparr>)
      else Inl KeyError)"

definition identity_run :: "nat \<Rightarrow> (string \<rightharpoonup> int list) \<Rightarrow> error + (string \<times> int list) list" where
  "identity_run c inputs =
     (case inputs ''in'' of None \<Rightarrow> Inl KeyError | Some v \<Rightarrow> Inr [(''y'', v)])"

definition hashes_1 :: "string \<rightharpoonup> string" where
  "hashes_1 = [''A.y'' \<mapsto> ''0a1b'']"

definition jobrun_1 :: "(int list, nat, string list) JobRun" where
  "jobrun_1 = \<lparr>policy_evaluator = policy_open,
                this_site = ''site:ns1:s1'',
                submission = \<lparr>submission_job = job_1,
                               submission_plan = \<lparr>step_sites = [''A'' \<mapsto> ''site:ns1:s1'']\<rparr>\<rparr>,
                id_hashes = (\<lambda>j. Inr hashes_1),
                subjob = (\<lambda>j step. Inr j),
                retrieve_asset = site_answers,
                compute_run = identity_run\<rparr>"

definition state_0 :: "(int list, nat) RunState" where
  "state_0 = \<lparr>target_store = store_empty, requests = 0, executed = [], sleeps = 0\<rparr>"

text \<open>The same run under a policy that lets nobody hold the output \<open>A.y\<close>.\<close>

definition perms_no_output :: "string \<rightharpoonup> string list" where
  "perms_no_output = [''x'' \<mapsto> [''site:ns1:s1''], ''A.in'' \<mapsto> [''site:ns1:s1''],
                      ''A'' \<mapsto> [''site:ns1:s1''], ''A.y'' \<mapsto> []]"

definition policy_no_output :: "string list Policy" where
  "policy_no_output = \<lparr>calculate_permissions = (\<lambda>j. Inr perms_no_output),
                        may_access = (\<lambda>perm who. who \<in> set perm)\<rparr>"

definition jobrun_no_output :: "(int list, nat, string list) JobRun" where
  "jobrun_no_output = jobrun_1\<lparr>policy_evaluator := policy_no_output\<rparr>"

text \<open>The same run when no site has the compute asset or the input.\<close>

definition jobrun_nothing_there :: "(int list, nat, string list) JobRun" where
  "jobrun_nothing_there = jobrun_1\<lparr>retrieve_asset := (\<lambda>st site aid. Inl KeyError)\<rparr>"

text \<open>
  A job for the earlier runner \<open>r1\<close>, administrated by party \<open>p1\<close>: step \<open>A\<close>
  has no inputs and one output \<open>y\<close>. The permissions let \<open>p1\<close> access the step,
  and nobody the output \<open>A.y\<close>. The client is the \<open>DDMClient\<close> of
  \<open>ddm_client.py\<close>: each of the four methods the runner calls on it raises
  \<open>AttributeError\<close>.
\<close>

definition step_noin :: WorkflowStep where
  "step_noin = \<lparr>step_name = ''A'', step_inputs = [], step_outputs = [''y''],
                 compute_asset_id = ''Combine''\<rparr>"

definition job_noin :: Job where
  "job_noin = \<lparr>workflow = \<lparr>steps = [(''A'', step_noin)]\<rparr>, job_inputs = Map.empty\<rparr>"

definition perms_noin :: "string \<rightharpoonup> string list" where
  "perms_noin = [''A'' \<mapsto> [''p1''], ''A.y'' \<mapsto> []]"

definition lwr_jobrun_1 :: "(int list, string list) lwr_JobRun" where
  "lwr_jobrun_1 = \<lparr>lwr_policy = \<lparr>calculate_permissions = (\<lambda>j. Inr perms_noin),
                                   may_access = (\<lambda>perm who. who \<in> set perm)\<rparr>,
                    this_runner = ''r1'',
                    administrator = ''p1'',
                    lwr_job = job_noin,
                    lwr_plan = \<lparr>step_runners = [(step_noin, ''r1'')],
                                 input_stores = Map.empty\<rparr>,
                    get_runner_administrator = (\<lambda>r. Inl AttributeError),
                    get_store_administrator = (\<lambda>s. Inl AttributeError),
                    get_target_store = (\<lambda>r. Inl AttributeError),
                    retrieve_data = (\<lambda>st s k. Inl AttributeError),
                    job_keys = (\<lambda>j. Inr [''A.y'' \<mapsto> ''0a1b'']),
                    lwr_subjob = (\<lambda>j step. Inr j),
                    combine = (\<lambda>a b. Inr (a @ b)),
                    anonymise = (\<lambda>a. Inr (map (\<lambda>x. x - 10) a)),
                    aggregate = (\<lambda>a. Inr [sum_list a div int (length a)]),
                    addition = (\<lambda>a b. Inr (map2 (+) a b))\<rparr>"

definition lwr_state_0 :: "int list lwr_RunState" where
  "lwr_state_0 = \<lparr>lwr_target_store = poc_store_empty, lwr_requests = 0, lwr_executed = [],
                   lwr_sleeps = 0\<rparr>"

text \<open>The same job when the party may not access the step itself.\<close>

definition perms_noin_closed :: "string \<rightharpoonup> string list" where
  "perms_noin_closed = [''A'' \<mapsto> [], ''A.y'' \<mapsto> []]"

definition lwr_jobrun_closed :: "(int list, string list) lwr_JobRun" where
  "lwr_jobrun_closed =
     lwr_jobrun_1\<lparr>lwr_policy := \<lparr>calculate_permissions = (\<lambda>j. Inr perms_noin_closed),
                                   may_access = (\<lambda>perm who. who \<in> set perm)\<rparr>\<rparr>"

text \<open>The same runs when the permission calculation itself raises.\<close>

definition jobrun_raising :: "(int list, nat, string list) JobRun" where
  "jobrun_raising =
     jobrun_1\<lparr>policy_evaluator := \<lparr>calculate_permissions = (\<lambda>j. Inl KeyError),
                                     may_access = (\<lambda>perm who. who \<in> set perm)\<rparr>\<rparr>"

definition lwr_jobrun_raising :: "(int list, string list) lwr_JobRun" where
  "lwr_jobrun_raising =
     lwr_jobrun_1\<lparr>lwr_policy := \<lparr>calculate_permissions = (\<lambda>j. Inl KeyError),
                                   may_access = (\<lambda>perm who. who \<in> set perm)\<rparr>\<rparr>"

text \<open>The states the run at site \<open>s1\<close> passes through.\<close>

definition state_slept :: "(int list, nat) RunState" where
  "state_slept = \<lparr>target_store = store_empty, requests = 2, executed = [], sleeps = 1\<rparr>"

definition state_done :: "(int list, nat) RunState" where
  "state_done = \<lparr>target_store = store_y, requests = 4, executed = [''A''], sleeps = 1\<rparr>"

text \<open>
  A second run of the same job at the same site: the target store holds the result of
  the first run when the run starts.
\<close>

definition state_rerun :: "(int list, nat) RunState" where
  "state_rerun = \<lparr>target_store = store_y, requests = 0, executed = [], sleeps = 0\<rparr>"

definition state_rerun_end :: "(int list, nat) RunState" where
  "state_rerun_end = \<lparr>target_store = store_y, requests = 4, executed = [''A''], sleeps = 1\<rparr>"

text \<open>
  A job of two steps at site \<open>s1\<close>: \<open>A\<close> as before and \<open>B\<close>, which has no
  inputs; the compute asset yields no outputs.
\<close>

definition step_B :: WorkflowStep where
  "step_B = \<lparr>step_name = ''B'', step_inputs = [], step_outputs = [],
              compute_asset_id = ''asset:ns1:identity:ns1:s1''\<rparr>"

definition job_2 :: Job where
  "job_2 = \<lparr>workflow = \<lparr>steps = [(''A'', step_A), (''B'', step_B)]\<rparr>,
             job_inputs = [''x'' \<mapsto> ''asset:ns1:x:ns1:s1'']\<rparr>"

definition jobrun_2 :: "(int list, nat, string list) JobRun" where
  "jobrun_2 = jobrun_1\<lparr>submission := \<lparr>submission_job = job_2,
                 submission_plan = \<lparr>step_sites = [''A'' \<mapsto> ''site:ns1:s1'',
                                                   ''B'' \<mapsto> ''site:ns1:s1'']\<rparr>\<rparr>,
               compute_run := (\<lambda>c inputs. Inr [])\<rparr>"

text \<open>Two constructor calls for sites with a runner: one with a store, one without.\<close>

definition site_desc_1 :: SiteDescription where
  "site_desc_1 = \<lparr>site_id = ''site:ns1:s1'', owner_id = ''party:ns1:p1'',
                   admin_id = ''party:ns1:p1'', endpoint = ''http://s1'', runner = True,
                   store = True, site_namespace = None\<rparr>"

definition site_calls ::
  "(Identifier \<times> Identifier \<times> Identifier \<times> string \<times> bool \<times> bool \<times> string option) list" where
  "site_calls = [(''site:ns1:s1'', ''party:ns1:p1'', ''party:ns1:p1'', ''http://s1'', True, True, None),
                 (''site:ns1:s2'', ''party:ns1:p1'', ''party:ns1:p1'', ''http://s2'', True, False, None)]"

section \<open>Identifier construction\<close>

lemma split_on_not_Nil: "split_on c s \<noteq> []"
  by (induction s) (auto split: list.splits)

lemma check_parts_ok: "check_parts ps = Inr ()"
  by (induction ps) (simp_all add: part_regex_match_def)

lemma Identifier_new_ignores_charset:
  assumes "split_on CHR '':'' data = p0 # ps"
    and "p0 \<in> set kinds"
    and "lengths p0 = Some (length (p0 # ps))"
  shows "Identifier_new data = Inr data"
  using assms by (simp add: Identifier_new_def check_parts_ok)

text \<open>
  C6. The claim: a string with a valid kind and part count and a segment holding a
  character outside \<open>[A-Za-z0-9_.-]\<close> is refused by the constructor. The code accepts
  it: the identifier \<open>party:a b:c!\<close>, with a space and an exclamation mark, is
  constructed without error, since the pattern matches the empty prefix of any part.
\<close>

theorem Identifier_new_accepts_bad_charset:
  "Identifier_new ''party:a b:c!'' = Inr ''party:a b:c!''
   \<and> \<not> part_char CHR '' '' \<and> \<not> part_char CHR ''!''"
  by (simp add: Identifier_new_def kinds_def lengths_def check_parts_ok part_char_def)

section \<open>Site descriptions\<close>

lemma constructed_sites_runner_store:
  "d \<in> set (constructed_sites args) \<Longrightarrow> runner d \<longrightarrow> store d"
proof (induction args rule: constructed_sites.induct)
  case 1
  then show ?case by simp
next
  case (2 sid own adm ep r s ns rest)
  then show ?case
    by (auto simp: SiteDescription_init_def split: if_splits)
qed

text \<open>
  C9. Every successfully constructed \<open>SiteDescription\<close> satisfies
  \<open>runner \<longrightarrow> store\<close>; the constructor raises for \<open>runner = True\<close> and
  \<open>store = False\<close>; hence every description among those obtained from any list of
  constructor calls, which is all a registry or a replica can hold, has a store when
  it has a runner.
\<close>

theorem SiteDescription_runner_needs_store:
  "(SiteDescription_init sid own adm ep r s ns = Inr d \<longrightarrow> (runner d \<longrightarrow> store d))
   \<and> SiteDescription_init sid own adm ep True False ns = Inl RuntimeError
   \<and> (\<forall>d' \<in> set (constructed_sites args). runner d' \<longrightarrow> store d')"
proof -
  have "SiteDescription_init sid own adm ep r s ns = Inr d \<longrightarrow> (runner d \<longrightarrow> store d)"
    by (auto simp: SiteDescription_init_def split: if_splits)
  moreover have "SiteDescription_init sid own adm ep True False ns = Inl RuntimeError"
    by (simp add: SiteDescription_init_def)
  moreover have "\<forall>d' \<in> set (constructed_sites args). runner d' \<longrightarrow> store d'"
    using constructed_sites_runner_store by blast
  ultimately show ?thesis by blast
qed

theorem SiteDescription_runner_needs_store_witness:
  "SiteDescription_init ''site:ns1:s1'' ''party:ns1:p1'' ''party:ns1:p1'' ''http://s1'' True True None
     = Inr site_desc_1
   \<and> runner site_desc_1
   \<and> store site_desc_1
   \<and> SiteDescription_init ''site:ns1:s2'' ''party:ns1:p1'' ''party:ns1:p1'' ''http://s2'' True False None
     = Inl RuntimeError
   \<and> constructed_sites site_calls = [site_desc_1]"
proof (intro conjI)
  show i: "SiteDescription_init ''site:ns1:s1'' ''party:ns1:p1'' ''party:ns1:p1'' ''http://s1''
      True True None = Inr site_desc_1"
    by (simp add: SiteDescription_init_def site_desc_1_def)
  show r: "runner site_desc_1"
    by (simp add: site_desc_1_def)
  show "store site_desc_1"
    by (rule SiteDescription_runner_needs_store
          [THEN conjunct1, THEN mp, OF i, THEN mp, OF r])
  show "SiteDescription_init ''site:ns1:s2'' ''party:ns1:p1'' ''party:ns1:p1'' ''http://s2''
      True False None = Inl RuntimeError"
    by (rule SiteDescription_runner_needs_store [THEN conjunct2, THEN conjunct1])
  show "constructed_sites site_calls = [site_desc_1]"
    by (simp add: site_calls_def SiteDescription_init_def site_desc_1_def)
qed

section \<open>The asset stores\<close>

lemma AssetStore_retrieve_Inr:
  assumes "fst (AssetStore_retrieve pol self aid requester) = Inr a"
  shows "assets self aid = Some a
    \<and> (\<exists>perms perm. calculate_permissions pol (job (metadata a)) = Inr perms
          \<and> perms (item (metadata a)) = Some perm \<and> may_access pol perm requester)"
  using assms
  by (auto simp: AssetStore_retrieve_def split: option.splits sum.splits if_splits)

lemma poc_retrieve_Inr:
  assumes "fst (poc_retrieve pol self nm requester) = Inr (d, md)"
  shows "poc_assets self nm = Some d \<and> poc_metadata self nm = Some md
    \<and> (\<exists>perms perm. calculate_permissions pol (job md) = Inr perms
          \<and> perms (item md) = Some perm \<and> may_access pol perm requester)"
  using assms
  by (auto simp: poc_retrieve_def split: option.splits sum.splits if_splits)

text \<open>
  C1. When \<open>retrieve\<close> returns an asset, the permission computed for the item of the
  asset's metadata (in the job of that metadata) exists and \<open>may_access\<close> holds of it
  for the requester; so a requester for whom \<open>may_access\<close> fails never receives the
  asset. Both stores.
\<close>

theorem retrieve_implies_may_access:
  "(fst (AssetStore_retrieve pol self aid requester) = Inr a \<longrightarrow>
      (\<exists>perms perm. calculate_permissions pol (job (metadata a)) = Inr perms
          \<and> perms (item (metadata a)) = Some perm \<and> may_access pol perm requester))
   \<and> (fst (poc_retrieve pol pself nm requester) = Inr (d, md) \<longrightarrow>
      (\<exists>perms perm. calculate_permissions pol (job md) = Inr perms
          \<and> perms (item md) = Some perm \<and> may_access pol perm requester))"
proof (intro conjI impI)
  assume "fst (AssetStore_retrieve pol self aid requester) = Inr a"
  from AssetStore_retrieve_Inr [OF this]
  show "\<exists>perms perm. calculate_permissions pol (job (metadata a)) = Inr perms
          \<and> perms (item (metadata a)) = Some perm \<and> may_access pol perm requester"
    by (rule conjunct2)
next
  assume "fst (poc_retrieve pol pself nm requester) = Inr (d, md)"
  from poc_retrieve_Inr [OF this]
  show "\<exists>perms perm. calculate_permissions pol (job md) = Inr perms
          \<and> perms (item md) = Some perm \<and> may_access pol perm requester"
    by simp
qed

lemma retrieve_store_y:
  "fst (AssetStore_retrieve policy_open store_y ''result:0a1b'' ''site:ns1:s1'') = Inr result_y"
  by (simp add: AssetStore_retrieve_def policy_open_def store_y_def result_y_def perms_open_def)

lemma poc_retrieve_store_y:
  "fst (poc_retrieve policy_open poc_store_y ''0a1b'' ''site:ns1:s1'')
     = Inr ([1, 2, 3], \<lparr>job = job_1, item = ''A.y''\<rparr>)"
  by (simp add: poc_retrieve_def policy_open_def poc_store_y_def perms_open_def)

theorem retrieve_implies_may_access_witness:
  "fst (AssetStore_retrieve policy_open store_y ''result:0a1b'' ''site:ns1:s1'') = Inr result_y
   \<and> fst (poc_retrieve policy_open poc_store_y ''0a1b'' ''site:ns1:s1'')
       = Inr ([1, 2, 3], \<lparr>job = job_1, item = ''A.y''\<rparr>)
   \<and> (\<exists>perms perm. calculate_permissions policy_open (job (metadata result_y)) = Inr perms
          \<and> perms (item (metadata result_y)) = Some perm
          \<and> may_access policy_open perm ''site:ns1:s1'')
   \<and> (\<exists>perms perm. calculate_permissions policy_open (job \<lparr>job = job_1, item = ''A.y''\<rparr>) = Inr perms
          \<and> perms (item \<lparr>job = job_1, item = ''A.y''\<rparr>) = Some perm
          \<and> may_access policy_open perm ''site:ns1:s1'')"
proof (intro conjI)
  show "fst (AssetStore_retrieve policy_open store_y ''result:0a1b'' ''site:ns1:s1'') = Inr result_y"
    by (rule retrieve_store_y)
  show "fst (poc_retrieve policy_open poc_store_y ''0a1b'' ''site:ns1:s1'')
       = Inr ([1, 2, 3], \<lparr>job = job_1, item = ''A.y''\<rparr>)"
    by (rule poc_retrieve_store_y)
  show "\<exists>perms perm. calculate_permissions policy_open (job (metadata result_y)) = Inr perms
          \<and> perms (item (metadata result_y)) = Some perm
          \<and> may_access policy_open perm ''site:ns1:s1''"
    by (rule retrieve_implies_may_access [THEN conjunct1, THEN mp, OF retrieve_store_y])
  show "\<exists>perms perm. calculate_permissions policy_open (job \<lparr>job = job_1, item = ''A.y''\<rparr>) = Inr perms
          \<and> perms (item \<lparr>job = job_1, item = ''A.y''\<rparr>) = Some perm
          \<and> may_access policy_open perm ''site:ns1:s1''"
    by (rule retrieve_implies_may_access [THEN conjunct2, THEN mp, OF poc_retrieve_store_y])
qed

text \<open>
  C2, as claimed: storing an asset whose identifier is already stored with the same
  payload succeeds. The code raises: after \<open>result_y\<close> has been stored in the empty
  store, storing \<open>result_y\<close> again yields \<open>KeyError\<close>, in both stores.
\<close>

theorem store_twice_counterexample:
  "fst (AssetStore_store store_empty result_y) = Inr ()
   \<and> fst (AssetStore_store (snd (AssetStore_store store_empty result_y)) result_y) = Inl KeyError
   \<and> fst (poc_store poc_store_empty ''0a1b'' [1, 2, 3] \<lparr>job = job_1, item = ''A.y''\<rparr>) = Inr ()
   \<and> fst (poc_store (snd (poc_store poc_store_empty ''0a1b'' [1, 2, 3] \<lparr>job = job_1, item = ''A.y''\<rparr>))
            ''0a1b'' [1, 2, 3] \<lparr>job = job_1, item = ''A.y''\<rparr>) = Inl KeyError"
  by (simp add: AssetStore_store_def poc_store_def store_empty_def poc_store_empty_def
      result_y_def)

text \<open>
  C2, amended: when an asset is already stored under the identifier (whatever its
  payload), \<open>store\<close> raises \<open>KeyError\<close> and leaves the store as it was; the second
  insert changes nothing, but it is reported as an error. Both stores.
\<close>

theorem store_existing_raises_unchanged:
  "(assets self (asset_id a) = Some b \<longrightarrow> AssetStore_store self a = (Inl KeyError, self))
   \<and> (poc_assets pself nm = Some d' \<longrightarrow> poc_store pself nm d md = (Inl KeyError, pself))"
  by (simp add: AssetStore_store_def poc_store_def)

theorem store_existing_raises_unchanged_witness:
  "assets store_y (asset_id result_y) = Some result_y
   \<and> AssetStore_store store_y result_y = (Inl KeyError, store_y)
   \<and> poc_assets poc_store_y ''0a1b'' = Some [1, 2, 3]
   \<and> poc_store poc_store_y ''0a1b'' [1, 2, 3] \<lparr>job = job_1, item = ''A.y''\<rparr>
        = (Inl KeyError, poc_store_y)"
proof -
  have h1: "assets store_y (asset_id result_y) = Some result_y"
    by (simp add: store_y_def result_y_def)
  have h2: "poc_assets poc_store_y ''0a1b'' = Some [1, 2, 3]"
    by (simp add: poc_store_y_def)
  have c1: "AssetStore_store store_y result_y = (Inl KeyError, store_y)"
    by (rule store_existing_raises_unchanged [THEN conjunct1, THEN mp, OF h1])
  have c2: "poc_store poc_store_y ''0a1b'' [1, 2, 3] \<lparr>job = job_1, item = ''A.y''\<rparr>
        = (Inl KeyError, poc_store_y)"
    by (rule store_existing_raises_unchanged [THEN conjunct2, THEN mp, OF h2])
  show ?thesis using h1 h2 c1 c2 by (intro conjI)
qed

text \<open>
  C10. \<open>retrieve\<close> leaves the store as it was, whether it returns the asset or
  raises. Both stores.
\<close>

theorem retrieve_leaves_store:
  "snd (AssetStore_retrieve pol self aid requester) = self
   \<and> snd (poc_retrieve pol pself nm requester) = pself"
  by (simp add: AssetStore_retrieve_def poc_retrieve_def split: option.split sum.split)

section \<open>Registration\<close>

lemma get_object_party_name:
  "get_object objs PartyDescriptionT ''name'' (StrAttr n) = Inr r
   \<Longrightarrow> (case r of None \<Rightarrow> \<not> party_registered objs n
              | Some ob \<Rightarrow> ob \<in> set objs \<and> (\<exists>p. ob = Party p \<and> party_name p = n))"
proof (induction objs)
  case Nil
  then show ?case by (auto simp: party_registered_def)
next
  case (Cons ob rest)
  show ?case
  proof (cases ob)
    case (Party p)
    with Cons show ?thesis
      by (auto simp: party_registered_def split: if_splits option.splits)
  next
    case (Site s)
    with Cons show ?thesis
      by (auto simp: party_registered_def split: if_splits option.splits)
  qed
qed

lemma get_object_party_total:
  "\<exists>r. get_object objs PartyDescriptionT ''name'' (StrAttr n) = Inr r"
proof (induction objs)
  case Nil
  then show ?case by simp
next
  case (Cons ob rest)
  then show ?case by (cases ob) auto
qed

lemma get_object_site_name:
  "get_object objs SiteDescriptionT ''name'' (StrAttr n) = Inr r
   \<Longrightarrow> (case r of None \<Rightarrow> \<not> site_registered objs n
              | Some ob \<Rightarrow> ob \<in> set objs \<and> (\<exists>s. ob = Site s \<and> site_name s = n))"
proof (induction objs)
  case Nil
  then show ?case by (auto simp: site_registered_def)
next
  case (Cons ob rest)
  show ?case
  proof (cases ob)
    case (Party p)
    with Cons show ?thesis
      by (auto simp: site_registered_def split: if_splits option.splits)
  next
    case (Site s)
    with Cons show ?thesis
      by (auto simp: site_registered_def split: if_splits option.splits)
  qed
qed

lemma get_object_site_total:
  "\<exists>r. get_object objs SiteDescriptionT ''name'' (StrAttr n) = Inr r"
proof (induction objs)
  case Nil
  then show ?case by simp
next
  case (Cons ob rest)
  then show ?case by (cases ob) auto
qed

lemma get_party_None_iff:
  "get_object objs PartyDescriptionT ''name'' (StrAttr n) = Inr None \<longleftrightarrow> \<not> party_registered objs n"
proof
  assume "get_object objs PartyDescriptionT ''name'' (StrAttr n) = Inr None"
  from get_object_party_name [OF this] show "\<not> party_registered objs n" by simp
next
  assume nr: "\<not> party_registered objs n"
  obtain r where r: "get_object objs PartyDescriptionT ''name'' (StrAttr n) = Inr r"
    using get_object_party_total by blast
  from get_object_party_name [OF r] nr have "r = None"
    by (cases r) (auto simp: party_registered_def)
  with r show "get_object objs PartyDescriptionT ''name'' (StrAttr n) = Inr None" by simp
qed

lemma in_store_party:
  "in_store objs PartyDescriptionT ''name'' (StrAttr n) = Inr (party_registered objs n)"
proof (cases "party_registered objs n")
  case True
  obtain r where r: "get_object objs PartyDescriptionT ''name'' (StrAttr n) = Inr r"
    using get_object_party_total by blast
  with True get_party_None_iff [of objs n] have "r \<noteq> None" by auto
  with r True show ?thesis by (simp add: in_store_def)
next
  case False
  with get_party_None_iff [of objs n] show ?thesis by (simp add: in_store_def)
qed

lemma get_site_None_iff:
  "get_object objs SiteDescriptionT ''name'' (StrAttr n) = Inr None \<longleftrightarrow> \<not> site_registered objs n"
proof
  assume "get_object objs SiteDescriptionT ''name'' (StrAttr n) = Inr None"
  from get_object_site_name [OF this] show "\<not> site_registered objs n" by simp
next
  assume nr: "\<not> site_registered objs n"
  obtain r where r: "get_object objs SiteDescriptionT ''name'' (StrAttr n) = Inr r"
    using get_object_site_total by blast
  from get_object_site_name [OF r] nr have "r = None"
    by (cases r) (auto simp: site_registered_def)
  with r show "get_object objs SiteDescriptionT ''name'' (StrAttr n) = Inr None" by simp
qed

lemma in_store_site:
  "in_store objs SiteDescriptionT ''name'' (StrAttr n) = Inr (site_registered objs n)"
proof (cases "site_registered objs n")
  case True
  obtain r where r: "get_object objs SiteDescriptionT ''name'' (StrAttr n) = Inr r"
    using get_object_site_total by blast
  with True get_site_None_iff [of objs n] have "r \<noteq> None" by auto
  with r True show ?thesis by (simp add: in_store_def)
next
  case False
  with get_site_None_iff [of objs n] show ?thesis by (simp add: in_store_def)
qed

lemma register_party_eq:
  "register_party self d =
     (if party_registered (canonical_store self) (party_name d) then (Inl RuntimeError, self)
      else (Inr (), self\<lparr>canonical_store := canonical_store self @ [Party d]\<rparr>))"
  by (simp add: register_party_def in_store_party CanonicalStore_insert_def)

lemma register_site_eq:
  "register_site self d =
     (if site_registered (canonical_store self) (site_name d)
         \<or> \<not> party_registered (canonical_store self) (owner_name d)
         \<or> \<not> party_registered (canonical_store self) (admin_name d)
      then (Inl RuntimeError, self)
      else (Inr (), self\<lparr>canonical_store := canonical_store self @ [Site d]\<rparr>))"
proof -
  obtain ro where ro: "get_object (canonical_store self) PartyDescriptionT ''name''
      (StrAttr (owner_name d)) = Inr ro"
    using get_object_party_total by blast
  obtain ra where ra: "get_object (canonical_store self) PartyDescriptionT ''name''
      (StrAttr (admin_name d)) = Inr ra"
    using get_object_party_total by blast
  have o: "ro = None \<longleftrightarrow> \<not> party_registered (canonical_store self) (owner_name d)"
    using ro get_party_None_iff [of "canonical_store self" "owner_name d"] by auto
  have a: "ra = None \<longleftrightarrow> \<not> party_registered (canonical_store self) (admin_name d)"
    using ra get_party_None_iff [of "canonical_store self" "admin_name d"] by auto
  show ?thesis
    using o a
    by (cases ro; cases ra)
       (simp_all add: register_site_def in_store_site ro ra CanonicalStore_insert_def)
qed

text \<open>
  C7. \<open>register_party\<close> and \<open>register_site\<close> raise when an object of the same
  class with the same name is registered; \<open>register_site\<close> raises unless both the
  owner and the administrator named in the description are registered parties; a
  registration that succeeds has inserted the description. A call that raises leaves
  the registry as it was.
\<close>

theorem register_unique_and_resolved:
  "(party_registered (canonical_store self) (party_name pd) \<longrightarrow>
      register_party self pd = (Inl RuntimeError, self))
   \<and> (site_registered (canonical_store self) (site_name sd) \<longrightarrow>
      register_site self sd = (Inl RuntimeError, self))
   \<and> (\<not> (party_registered (canonical_store self) (owner_name sd)
          \<and> party_registered (canonical_store self) (admin_name sd)) \<longrightarrow>
      register_site self sd = (Inl RuntimeError, self))
   \<and> (fst (register_party self pd) = Inr () \<longrightarrow>
      snd (register_party self pd) = self\<lparr>canonical_store := canonical_store self @ [Party pd]\<rparr>)
   \<and> (fst (register_site self sd) = Inr () \<longrightarrow>
      snd (register_site self sd) = self\<lparr>canonical_store := canonical_store self @ [Site sd]\<rparr>)"
proof (intro conjI impI)
  assume "party_registered (canonical_store self) (party_name pd)"
  then show "register_party self pd = (Inl RuntimeError, self)"
    by (simp add: register_party_eq)
next
  assume "site_registered (canonical_store self) (site_name sd)"
  then show "register_site self sd = (Inl RuntimeError, self)"
    by (simp add: register_site_eq)
next
  assume "\<not> (party_registered (canonical_store self) (owner_name sd)
          \<and> party_registered (canonical_store self) (admin_name sd))"
  then show "register_site self sd = (Inl RuntimeError, self)"
    by (auto simp: register_site_eq)
next
  assume "fst (register_party self pd) = Inr ()"
  then show "snd (register_party self pd)
      = self\<lparr>canonical_store := canonical_store self @ [Party pd]\<rparr>"
    by (simp add: register_party_eq split: if_splits)
next
  assume "fst (register_site self sd) = Inr ()"
  then show "snd (register_site self sd)
      = self\<lparr>canonical_store := canonical_store self @ [Site sd]\<rparr>"
    by (simp add: register_site_eq split: if_splits)
qed

lemma p1_registered: "party_registered (canonical_store registry_p1) (party_name party_p1)"
  by (auto simp: party_registered_def registry_p1_def)

lemma s1_registered: "site_registered (canonical_store registry_p1_s1) (site_name site_s1)"
  by (auto simp: site_registered_def registry_p1_s1_def)

lemma owner_unregistered:
  "\<not> (party_registered (canonical_store registry_empty) (owner_name site_s1)
       \<and> party_registered (canonical_store registry_empty) (admin_name site_s1))"
  by (simp add: party_registered_def registry_empty_def)

lemma register_p1_ok: "fst (register_party registry_empty party_p1) = Inr ()"
  by (simp add: register_party_def in_store_def registry_empty_def)

lemma register_s1_ok: "fst (register_site registry_p1 site_s1) = Inr ()"
  by (simp add: register_site_def in_store_def registry_p1_def site_s1_def party_p1_def)

theorem register_unique_and_resolved_witness:
  "register_party registry_p1 party_p1 = (Inl RuntimeError, registry_p1)
   \<and> register_site registry_p1_s1 site_s1 = (Inl RuntimeError, registry_p1_s1)
   \<and> register_site registry_empty site_s1 = (Inl RuntimeError, registry_empty)
   \<and> fst (register_party registry_empty party_p1) = Inr ()
   \<and> snd (register_party registry_empty party_p1) = registry_p1
   \<and> fst (register_site registry_p1 site_s1) = Inr ()
   \<and> snd (register_site registry_p1 site_s1) = registry_p1_s1"
proof (intro conjI)
  show "register_party registry_p1 party_p1 = (Inl RuntimeError, registry_p1)"
    by (rule register_unique_and_resolved [THEN conjunct1, THEN mp, OF p1_registered])
  show "register_site registry_p1_s1 site_s1 = (Inl RuntimeError, registry_p1_s1)"
    by (rule register_unique_and_resolved
          [THEN conjunct2, THEN conjunct1, THEN mp, OF s1_registered])
  show "register_site registry_empty site_s1 = (Inl RuntimeError, registry_empty)"
    by (rule register_unique_and_resolved
          [THEN conjunct2, THEN conjunct2, THEN conjunct1, THEN mp, OF owner_unregistered])
  show "fst (register_party registry_empty party_p1) = Inr ()"
    by (rule register_p1_ok)
  have "snd (register_party registry_empty party_p1)
      = registry_empty\<lparr>canonical_store := canonical_store registry_empty @ [Party party_p1]\<rparr>"
    by (rule register_unique_and_resolved
          [THEN conjunct2, THEN conjunct2, THEN conjunct2, THEN conjunct1, THEN mp,
           OF register_p1_ok])
  then show "snd (register_party registry_empty party_p1) = registry_p1"
    by (simp add: registry_empty_def registry_p1_def)
  show "fst (register_site registry_p1 site_s1) = Inr ()"
    by (rule register_s1_ok)
  have "snd (register_site registry_p1 site_s1)
      = registry_p1\<lparr>canonical_store := canonical_store registry_p1 @ [Site site_s1]\<rparr>"
    by (rule register_unique_and_resolved
          [THEN conjunct2, THEN conjunct2, THEN conjunct2, THEN conjunct2, THEN mp,
           OF register_s1_ok])
  then show "snd (register_site registry_p1 site_s1) = registry_p1_s1"
    by (simp add: registry_p1_def registry_p1_s1_def)
qed

section \<open>The runs of the one-step job\<close>

lemmas ev_defs = jobrun_1_def state_0_def policy_open_def perms_open_def site_answers_def
  identity_run_def hashes_1_def job_1_def step_A_def store_empty_def job_0_def
  sites_def the_job_def dotted_def

lemma loc_x: "location ''asset:ns1:x:ns1:s1'' = Inr ''site:ns1:s1''"
  by (simp add: location_def parts_def index_def Identifier_new_def kinds_def lengths_def part_regex_match_def)

lemma loc_c: "location ''asset:ns1:identity:ns1:s1'' = Inr ''site:ns1:s1''"
  by (simp add: location_def parts_def index_def Identifier_new_def kinds_def lengths_def part_regex_match_def)

lemma hash_id: "from_id_hash ''0a1b'' = Inr ''result:0a1b''"
  by (simp add: from_id_hash_def Identifier_new_def kinds_def lengths_def part_regex_match_def)

lemma legal_1: "is_legal jobrun_1 = Inr True"
  by (simp add: is_legal_def legal_src_site_def loc_x ev_defs)

lemma gsi_0: "get_step_inputs jobrun_1 step_A hashes_1 state_0 = (Inr None, tick state_0)"
  by (simp add: get_step_inputs_def source_def loc_x ev_defs)

lemmas lwr_defs = lwr_jobrun_1_def lwr_state_0_def perms_noin_def job_noin_def step_noin_def
  poc_store_empty_def job_0_def runners_def dotted_def

lemma rca_0:
  "retrieve_compute_asset jobrun_1 (compute_asset_id step_A) (tick state_0)
     = (Inr 0, tick (tick state_0))"
  by (simp add: retrieve_compute_asset_def loc_c jobrun_1_def site_answers_def step_A_def)

lemma attempt_0: "attempt_step jobrun_1 hashes_1 step_A state_0 = (Skipped, tick (tick state_0))"
  by (simp add: attempt_step_def gsi_0 rca_0)

lemma scan_0: "scan_steps jobrun_1 hashes_1 [step_A] state_0 = (NoProgress, tick (tick state_0))"
  by (simp add: attempt_0)

lemma slept_eq: "sleep (tick (tick state_0)) = state_slept"
  by (simp add: sleep_def tick_def state_0_def state_slept_def)

lemma gsi_1:
  "get_step_inputs jobrun_1 step_A hashes_1 state_slept = (Inr (Some [''in'' \<mapsto> [1, 2, 3]]), tick state_slept)"
  by (simp add: get_step_inputs_def source_def loc_x ev_defs state_slept_def)

lemma rca_1:
  "retrieve_compute_asset jobrun_1 (compute_asset_id step_A) (tick state_slept)
     = (Inr 0, tick (tick state_slept))"
  by (simp add: retrieve_compute_asset_def loc_c jobrun_1_def site_answers_def step_A_def)

lemma exec_1:
  "execute_step jobrun_1 hashes_1 step_A 0 [''in'' \<mapsto> [1, 2, 3]] (tick (tick state_slept))
     = (Inr (), state_done)"
  by (simp add: execute_step_def hash_id AssetStore_store_def tick_def state_slept_def
      state_done_def store_y_def result_y_def ev_defs)

lemma attempt_1: "attempt_step jobrun_1 hashes_1 step_A state_slept = (Executed, state_done)"
  by (simp add: attempt_step_def gsi_1 rca_1 exec_1)

lemma local_1: "local_steps jobrun_1 (map snd (steps (workflow (the_job jobrun_1)))) = Inr [step_A]"
  by (simp add: ev_defs)

lemma run_1: "run 2 jobrun_1 state_0 = (Some (Inr ()), state_done)"
proof -
  have "run_loop (Suc (Suc 0)) jobrun_1 hashes_1 [step_A] state_0 = (Some (Inr ()), state_done)"
    by (simp add: attempt_0 slept_eq attempt_1)
  moreover have "id_hashes jobrun_1 (the_job jobrun_1) = Inr hashes_1"
    by (simp add: jobrun_1_def)
  ultimately show ?thesis
    by (simp add: run_def legal_1 local_1 numeral_2_eq_2)
qed

lemma illegal_no_output: "is_legal jobrun_no_output = Inr False"
  by (simp add: is_legal_def legal_src_site_def loc_x jobrun_no_output_def policy_no_output_def
      perms_no_output_def ev_defs)

lemma illegal_raising: "is_legal jobrun_raising = Inl KeyError"
  by (simp add: is_legal_def jobrun_raising_def)


lemma lwr_illegal_closed: "lwr_is_legal lwr_jobrun_closed = Inr False"
  by (simp add: lwr_is_legal_def lwr_jobrun_closed_def perms_noin_closed_def lwr_defs)

lemma lwr_illegal_raising: "lwr_is_legal lwr_jobrun_raising = Inl KeyError"
  by (simp add: lwr_is_legal_def lwr_jobrun_raising_def)

lemma run_rerun: "run 2 jobrun_1 state_rerun = (Some (Inl KeyError), state_rerun_end)"
proof -
  have g0: "get_step_inputs jobrun_1 step_A hashes_1 state_rerun = (Inr None, tick state_rerun)"
    by (simp add: get_step_inputs_def source_def loc_x ev_defs state_rerun_def)
  have c0: "retrieve_compute_asset jobrun_1 (compute_asset_id step_A) (tick state_rerun)
      = (Inr 0, tick (tick state_rerun))"
    by (simp add: retrieve_compute_asset_def loc_c jobrun_1_def site_answers_def step_A_def)
  have a0: "attempt_step jobrun_1 hashes_1 step_A state_rerun = (Skipped, tick (tick state_rerun))"
    by (simp add: attempt_step_def g0 c0)
  define st1 where "st1 = sleep (tick (tick state_rerun))"
  have s1: "st1 = \<lparr>target_store = store_y, requests = 2, executed = [], sleeps = 1\<rparr>"
    by (simp add: st1_def sleep_def tick_def state_rerun_def)
  have g1: "get_step_inputs jobrun_1 step_A hashes_1 st1
      = (Inr (Some [''in'' \<mapsto> [1, 2, 3]]), tick st1)"
    by (simp add: get_step_inputs_def source_def loc_x ev_defs s1)
  have c1: "retrieve_compute_asset jobrun_1 (compute_asset_id step_A) (tick st1)
      = (Inr 0, tick (tick st1))"
    by (simp add: retrieve_compute_asset_def loc_c jobrun_1_def site_answers_def step_A_def)
  have e1: "execute_step jobrun_1 hashes_1 step_A 0 [''in'' \<mapsto> [1, 2, 3]] (tick (tick st1))
      = (Inl KeyError, state_rerun_end)"
    by (simp add: execute_step_def hash_id AssetStore_store_def tick_def s1 state_rerun_end_def
        store_y_def result_y_def ev_defs)
  have a1: "attempt_step jobrun_1 hashes_1 step_A st1 = (Raised KeyError, state_rerun_end)"
    by (simp add: attempt_step_def g1 c1 e1)
  have "run_loop (Suc (Suc 0)) jobrun_1 hashes_1 [step_A] state_rerun
      = (Some (Inl KeyError), state_rerun_end)"
    by (simp add: a0 a1 st1_def [symmetric])
  moreover have "id_hashes jobrun_1 (the_job jobrun_1) = Inr hashes_1"
    by (simp add: jobrun_1_def)
  ultimately show ?thesis
    by (simp add: run_def legal_1 local_1 numeral_2_eq_2)
qed

lemma gsi_nothing:
  "get_step_inputs jobrun_nothing_there step_A hashes_1 state_0 = (Inr None, tick state_0)"
  by (simp add: get_step_inputs_def source_def loc_x jobrun_nothing_there_def ev_defs)

lemma run_nothing:
  "run 1 jobrun_nothing_there state_0 = (Some (Inl KeyError), tick (tick state_0))"
proof -
  have l: "is_legal jobrun_nothing_there = Inr True"
    by (simp add: is_legal_def legal_src_site_def loc_x jobrun_nothing_there_def ev_defs)
  have r: "retrieve_compute_asset jobrun_nothing_there (compute_asset_id step_A) (tick state_0)
     = (Inl KeyError, tick (tick state_0))"
    by (simp add: retrieve_compute_asset_def loc_c jobrun_nothing_there_def jobrun_1_def step_A_def)
  have s: "local_steps jobrun_nothing_there (map snd (steps (workflow (the_job jobrun_nothing_there))))
      = Inr [step_A]"
    by (simp add: jobrun_nothing_there_def ev_defs)
  have h: "id_hashes jobrun_nothing_there (the_job jobrun_nothing_there) = Inr hashes_1"
    by (simp add: jobrun_nothing_there_def jobrun_1_def)
  show ?thesis
    by (simp add: run_def l s h attempt_step_def gsi_nothing r)
qed

section \<open>The step runner\<close>

lemma from_id_hash_result: "from_id_hash h = Inr rid \<Longrightarrow> rid = ''result:'' @ h"
  by (auto simp: from_id_hash_def Identifier_new_def split: if_splits list.splits sum.splits)

lemma AssetStore_store_keeps:
  "AssetStore_store ts a = (r, ts') \<Longrightarrow> assets ts k = Some b \<Longrightarrow> assets ts' k = Some b"
  by (auto simp: AssetStore_store_def split: if_splits)

lemma AssetStore_store_stored:
  "AssetStore_store ts a = (Inr u, ts') \<Longrightarrow> assets ts' (asset_id a) = Some a"
  by (auto simp: AssetStore_store_def split: if_splits)

lemma store_outputs_keeps:
  "store_outputs idh sj sname outs ts = (r, ts') \<Longrightarrow> assets ts k = Some b
   \<Longrightarrow> assets ts' k = Some b"
proof (induction outs arbitrary: ts)
  case Nil
  then show ?case by simp
next
  case (Cons ov outs)
  obtain o_name v where ov: "ov = (o_name, v)" by (cases ov)
  show ?case
  proof (cases "idh (dotted sname o_name)")
    case None
    with Cons.prems ov show ?thesis by simp
  next
    case (Some h)
    show ?thesis
    proof (cases "from_id_hash h")
      case (Inl e)
      with Cons.prems ov Some show ?thesis by simp
    next
      case (Inr rid)
      obtain r1 ts1 where st:
        "AssetStore_store ts (DataAsset rid v \<lparr>job = sj, item = dotted sname o_name\<rparr>) = (r1, ts1)"
        by (cases "AssetStore_store ts (DataAsset rid v \<lparr>job = sj, item = dotted sname o_name\<rparr>)")
      have k1: "assets ts1 k = Some b"
        using AssetStore_store_keeps [OF st Cons.prems(2)] .
      show ?thesis
      proof (cases r1)
        case (Inl e)
        with Cons.prems ov Some Inr st k1 show ?thesis by simp
      next
        case (Inr u)
        with Cons.prems ov Some \<open>from_id_hash h = Inr rid\<close> st
        have "store_outputs idh sj sname outs ts1 = (r, ts')" by simp
        from Cons.IH [OF this k1] show ?thesis .
      qed
    qed
  qed
qed

lemma store_outputs_stored:
  "store_outputs idh sj sname outs ts = (Inr (), ts') \<Longrightarrow> (o_name, v) \<in> set outs
   \<Longrightarrow> \<exists>h. idh (dotted sname o_name) = Some h
         \<and> from_id_hash h = Inr (''result:'' @ h)
         \<and> assets ts' (''result:'' @ h)
             = Some (DataAsset (''result:'' @ h) v \<lparr>job = sj, item = dotted sname o_name\<rparr>)"
proof (induction outs arbitrary: ts)
  case Nil
  then show ?case by simp
next
  case (Cons ov outs)
  obtain o1 v1 where ov: "ov = (o1, v1)" by (cases ov)
  from Cons.prems(1) ov obtain h1 where h1: "idh (dotted sname o1) = Some h1"
    by (cases "idh (dotted sname o1)") auto
  from Cons.prems(1) ov h1 obtain rid where rid: "from_id_hash h1 = Inr rid"
    by (cases "from_id_hash h1") auto
  have rid_eq: "rid = ''result:'' @ h1" using from_id_hash_result [OF rid] .
  obtain r1 ts1 where st:
    "AssetStore_store ts (DataAsset rid v1 \<lparr>job = sj, item = dotted sname o1\<rparr>) = (r1, ts1)"
    by (cases "AssetStore_store ts (DataAsset rid v1 \<lparr>job = sj, item = dotted sname o1\<rparr>)")
  from Cons.prems(1) ov h1 rid st have r1: "r1 = Inr ()"
    by (cases r1) auto
  from Cons.prems(1) ov h1 rid st r1
  have rest: "store_outputs idh sj sname outs ts1 = (Inr (), ts')" by simp
  from Cons.prems(2) ov consider "(o_name, v) = (o1, v1)" | "(o_name, v) \<in> set outs" by auto
  then show ?case
  proof cases
    case 1
    have "assets ts1 (asset_id (DataAsset rid v1 \<lparr>job = sj, item = dotted sname o1\<rparr>))
        = Some (DataAsset rid v1 \<lparr>job = sj, item = dotted sname o1\<rparr>)"
      using st r1 by (auto simp: AssetStore_store_def split: if_splits)
    then have "assets ts1 rid = Some (DataAsset rid v1 \<lparr>job = sj, item = dotted sname o1\<rparr>)"
      by simp
    from store_outputs_keeps [OF rest this]
    have "assets ts' rid = Some (DataAsset rid v1 \<lparr>job = sj, item = dotted sname o1\<rparr>)" .
    with 1 h1 rid rid_eq show ?thesis by auto
  next
    case 2
    from Cons.IH [OF rest 2] show ?thesis .
  qed
qed

lemma get_inputs_loop_frame:
  "get_inputs_loop self idh ins acc st = (r, st')
   \<Longrightarrow> target_store st' = target_store st \<and> executed st' = executed st \<and> sleeps st' = sleeps st"
proof (induction ins arbitrary: acc st)
  case Nil
  then show ?case by simp
next
  case (Cons i ins)
  obtain inp_name inp_source where i: "i = (inp_name, inp_source)" by (cases i)
  show ?case
  proof (cases "source self idh inp_source")
    case (Inl e)
    with Cons.prems i show ?thesis by simp
  next
    case (Inr sa)
    obtain source_site source_asset where sa: "sa = (source_site, source_asset)" by (cases sa)
    show ?thesis
    proof (cases "retrieve_asset self st source_site source_asset")
      case (Inl e)
      with Cons.prems i Inr sa show ?thesis by (auto simp: tick_def split: if_splits)
    next
      case ra: (Inr asset)
      show ?thesis
      proof (cases "asset_data asset")
        case (Inl e)
        with Cons.prems i Inr sa ra show ?thesis by (auto simp: tick_def split: if_splits)
      next
        case ad: (Inr d)
        from Cons.prems i Inr sa ra ad
        have "get_inputs_loop self idh ins (acc(inp_name \<mapsto> d)) (tick st) = (r, st')" by simp
        from Cons.IH [OF this] show ?thesis by (simp add: tick_def)
      qed
    qed
  qed
qed

lemma get_step_inputs_frame:
  "get_step_inputs self step idh st = (r, st')
   \<Longrightarrow> target_store st' = target_store st \<and> executed st' = executed st \<and> sleeps st' = sleeps st"
  unfolding get_step_inputs_def by (rule get_inputs_loop_frame)

lemma retrieve_compute_asset_frame:
  "retrieve_compute_asset self cid st = (r, st')
   \<Longrightarrow> target_store st' = target_store st \<and> executed st' = executed st \<and> sleeps st' = sleeps st"
  by (auto simp: retrieve_compute_asset_def tick_def split: sum.splits Asset.splits)

lemma attempt_step_Skipped_frame:
  "attempt_step self idh step st = (Skipped, st')
   \<Longrightarrow> target_store st' = target_store st \<and> executed st' = executed st \<and> sleeps st' = sleeps st"
proof -
  assume a: "attempt_step self idh step st = (Skipped, st')"
  obtain r1 st1 where g: "get_step_inputs self step idh st = (r1, st1)"
    by (cases "get_step_inputs self step idh st")
  obtain r2 st2 where c: "retrieve_compute_asset self (compute_asset_id step) st1 = (r2, st2)"
    by (cases "retrieve_compute_asset self (compute_asset_id step) st1")
  from a g c have "st' = st2"
    by (auto simp: attempt_step_def split: sum.splits option.splits prod.splits)
  with get_step_inputs_frame [OF g] retrieve_compute_asset_frame [OF c] show ?thesis by simp
qed

lemma scan_steps_NoProgress_frame:
  "scan_steps self idh todo st = (NoProgress, st')
   \<Longrightarrow> target_store st' = target_store st \<and> executed st' = executed st \<and> sleeps st' = sleeps st"
proof (induction todo arbitrary: st)
  case Nil
  then show ?case by simp
next
  case (Cons step todo)
  obtain a st1 where at: "attempt_step self idh step st = (a, st1)"
    by (cases "attempt_step self idh step st")
  show ?case
  proof (cases a)
    case Executed
    with Cons.prems at show ?thesis by simp
  next
    case Skipped
    with Cons.prems at have "scan_steps self idh todo st1 = (NoProgress, st')" by simp
    from Cons.IH [OF this] attempt_step_Skipped_frame [OF at [unfolded Skipped]]
    show ?thesis by simp
  next
    case (Raised e)
    with Cons.prems at show ?thesis by simp
  qed
qed

lemma scan_steps_Progress_mem:
  "scan_steps self idh todo st = (Progress done, st') \<Longrightarrow> done \<in> set todo"
proof (induction todo arbitrary: st)
  case Nil
  then show ?case by simp
next
  case (Cons step todo)
  obtain a st1 where at: "attempt_step self idh step st = (a, st1)"
    by (cases "attempt_step self idh step st")
  show ?case
  proof (cases a)
    case Executed
    with Cons.prems at show ?thesis by simp
  next
    case Skipped
    with Cons.prems at have "scan_steps self idh todo st1 = (Progress done, st')" by simp
    from Cons.IH [OF this] show ?thesis by simp
  next
    case (Raised e)
    with Cons.prems at show ?thesis by simp
  qed
qed

text \<open>
  C4. When the legality check fails, \<open>run\<close> raises before anything else happens:
  if the check returns \<open>False\<close> the run raises \<open>RuntimeError\<close>, and if the check
  itself raises, that exception leaves the run. In both cases the run state is the one
  the run started in: no request was sent, no step was executed and the target store
  holds what it held. Both runners, for every bound on the number of passes.
\<close>

theorem illegal_job_aborts_before_steps:
  "(is_legal self = Inr False \<longrightarrow> run fuel self st = (Some (Inl RuntimeError), st))
   \<and> (is_legal self = Inl e \<longrightarrow> run fuel self st = (Some (Inl e), st))
   \<and> (lwr_is_legal lself = Inr False \<longrightarrow>
        lwr_run fuel lself lst = (Some (Inl RuntimeError), lst))
   \<and> (lwr_is_legal lself = Inl e \<longrightarrow> lwr_run fuel lself lst = (Some (Inl e), lst))"
  by (simp add: run_def lwr_run_def)

theorem illegal_job_aborts_before_steps_witness:
  "is_legal jobrun_no_output = Inr False
   \<and> run 2 jobrun_no_output state_0 = (Some (Inl RuntimeError), state_0)
   \<and> is_legal jobrun_raising = Inl KeyError
   \<and> run 2 jobrun_raising state_0 = (Some (Inl KeyError), state_0)
   \<and> lwr_is_legal lwr_jobrun_closed = Inr False
   \<and> lwr_run 2 lwr_jobrun_closed lwr_state_0 = (Some (Inl RuntimeError), lwr_state_0)
   \<and> lwr_is_legal lwr_jobrun_raising = Inl KeyError
   \<and> lwr_run 2 lwr_jobrun_raising lwr_state_0 = (Some (Inl KeyError), lwr_state_0)
   \<and> executed state_0 = [] \<and> assets (target_store state_0) = Map.empty"
proof (intro conjI)
  show "is_legal jobrun_no_output = Inr False" by (rule illegal_no_output)
  show "run 2 jobrun_no_output state_0 = (Some (Inl RuntimeError), state_0)"
    by (rule illegal_job_aborts_before_steps [THEN conjunct1, THEN mp, OF illegal_no_output])
  show "is_legal jobrun_raising = Inl KeyError" by (rule illegal_raising)
  show "run 2 jobrun_raising state_0 = (Some (Inl KeyError), state_0)"
    by (rule illegal_job_aborts_before_steps
          [THEN conjunct2, THEN conjunct1, THEN mp, OF illegal_raising])
  show "lwr_is_legal lwr_jobrun_closed = Inr False" by (rule lwr_illegal_closed)
  show "lwr_run 2 lwr_jobrun_closed lwr_state_0 = (Some (Inl RuntimeError), lwr_state_0)"
    by (rule illegal_job_aborts_before_steps
          [THEN conjunct2, THEN conjunct2, THEN conjunct1, THEN mp, OF lwr_illegal_closed])
  show "lwr_is_legal lwr_jobrun_raising = Inl KeyError" by (rule lwr_illegal_raising)
  show "lwr_run 2 lwr_jobrun_raising lwr_state_0 = (Some (Inl KeyError), lwr_state_0)"
    by (rule illegal_job_aborts_before_steps
          [THEN conjunct2, THEN conjunct2, THEN conjunct2, THEN mp, OF lwr_illegal_raising])
  show "executed state_0 = []" by (simp add: state_0_def)
  show "assets (target_store state_0) = Map.empty" by (simp add: state_0_def store_empty_def)
qed

lemma execute_step_stored:
  assumes "execute_step self idh step c inputs st = (Inr (), st')"
  shows "\<exists>outputs step_subjob.
      compute_run self c inputs = Inr outputs
      \<and> subjob self (the_job self) step = Inr step_subjob
      \<and> (\<forall>(o_name, v) \<in> set outputs.
            \<exists>h. idh (dotted (step_name step) o_name) = Some h
               \<and> from_id_hash h = Inr (''result:'' @ h)
               \<and> assets (target_store st') (''result:'' @ h)
                   = Some (DataAsset (''result:'' @ h) v
                             \<lparr>job = step_subjob, item = dotted (step_name step) o_name\<rparr>))"
proof -
  from assms obtain outputs where co: "compute_run self c inputs = Inr outputs"
    by (cases "compute_run self c inputs") (auto simp: execute_step_def Let_def)
  from assms co obtain sj where sj: "subjob self (the_job self) step = Inr sj"
    by (cases "subjob self (the_job self) step") (auto simp: execute_step_def Let_def)
  obtain r ts' where so:
    "store_outputs idh sj (step_name step) outputs (target_store st) = (r, ts')"
    by (cases "store_outputs idh sj (step_name step) outputs (target_store st)")
  from assms co sj so have r: "r = Inr ()" and ts: "target_store st' = ts'"
    by (auto simp: execute_step_def Let_def)
  have "\<forall>(o_name, v) \<in> set outputs.
            \<exists>h. idh (dotted (step_name step) o_name) = Some h
               \<and> from_id_hash h = Inr (''result:'' @ h)
               \<and> assets (target_store st') (''result:'' @ h)
                   = Some (DataAsset (''result:'' @ h) v
                             \<lparr>job = sj, item = dotted (step_name step) o_name\<rparr>)"
  proof (clarify)
    fix o_name v
    assume "(o_name, v) \<in> set outputs"
    from store_outputs_stored [OF so [unfolded r] this] ts
    show "\<exists>h. idh (dotted (step_name step) o_name) = Some h
               \<and> from_id_hash h = Inr (''result:'' @ h)
               \<and> assets (target_store st') (''result:'' @ h)
                   = Some (DataAsset (''result:'' @ h) v
                             \<lparr>job = sj, item = dotted (step_name step) o_name\<rparr>)"
      by simp
  qed
  with co sj show ?thesis by blast
qed

text \<open>
  C5, as claimed: for every step the runner executes, every output of the compute
  asset is stored. On a second run of the same job at the same site the step is
  executed again (its compute asset is run), and \<open>store\<close> refuses the output because
  an asset is already stored under the result identifier: the run ends with
  \<open>KeyError\<close> and has stored nothing.
\<close>

theorem rerun_store_raises_counterexample:
  "run 2 jobrun_1 state_0 = (Some (Inr ()), state_done)
   \<and> target_store state_rerun = target_store state_done
   \<and> run 2 jobrun_1 state_rerun = (Some (Inl KeyError), state_rerun_end)
   \<and> executed state_rerun = []
   \<and> executed state_rerun_end = [''A'']
   \<and> target_store state_rerun_end = target_store state_rerun"
proof (intro conjI)
  show "run 2 jobrun_1 state_0 = (Some (Inr ()), state_done)" by (rule run_1)
  show "target_store state_rerun = target_store state_done"
    by (simp add: state_rerun_def state_done_def)
  show "run 2 jobrun_1 state_rerun = (Some (Inl KeyError), state_rerun_end)" by (rule run_rerun)
  show "executed state_rerun = []" by (simp add: state_rerun_def)
  show "executed state_rerun_end = [''A'']" by (simp add: state_rerun_end_def)
  show "target_store state_rerun_end = target_store state_rerun"
    by (simp add: state_rerun_def state_rerun_end_def)
qed

text \<open>
  C5, amended: when the runner has executed a step to completion (its inputs were
  retrieved, its compute asset was run and every call of \<open>store\<close> for its outputs
  succeeded), then for every output \<open>o\<close> with value \<open>v\<close> that the compute asset
  produced, the target store holds, under the identifier \<open>result:h\<close> with \<open>h\<close> the
  id hash of the item \<open>s.o\<close> in the job, the data asset with that identifier, the
  value \<open>v\<close> and the metadata made of the sub-job of the step and the item \<open>s.o\<close>.
\<close>

theorem executed_step_stores_results:
  assumes "id_hashes self (the_job self) = Inr idh"
    and "attempt_step self idh step st = (Executed, st')"
  shows "\<exists>inputs st1 c st2 outputs step_subjob.
      get_step_inputs self step idh st = (Inr (Some inputs), st1)
      \<and> retrieve_compute_asset self (compute_asset_id step) st1 = (Inr c, st2)
      \<and> compute_run self c inputs = Inr outputs
      \<and> subjob self (the_job self) step = Inr step_subjob
      \<and> (\<forall>(o_name, v) \<in> set outputs.
            \<exists>h. idh (dotted (step_name step) o_name) = Some h
               \<and> from_id_hash h = Inr (''result:'' @ h)
               \<and> assets (target_store st') (''result:'' @ h)
                   = Some (DataAsset (''result:'' @ h) v
                             \<lparr>job = step_subjob, item = dotted (step_name step) o_name\<rparr>))"
proof -
  obtain r1 st1 where g: "get_step_inputs self step idh st = (r1, st1)"
    by (cases "get_step_inputs self step idh st")
  from assms(2) g obtain inputs where r1: "r1 = Inr (Some inputs)"
    by (cases r1)
       (auto simp: attempt_step_def split: sum.splits option.splits prod.splits)
  obtain r2 st2 where c: "retrieve_compute_asset self (compute_asset_id step) st1 = (r2, st2)"
    by (cases "retrieve_compute_asset self (compute_asset_id step) st1")
  from assms(2) g r1 c obtain ca where r2: "r2 = Inr ca"
    by (cases r2) (auto simp: attempt_step_def)
  from assms(2) g r1 c r2 have e: "execute_step self idh step ca inputs st2 = (Inr (), st')"
    by (auto simp: attempt_step_def split: sum.splits prod.splits)
  from execute_step_stored [OF e] g r1 c r2 show ?thesis by blast
qed

lemma hashes_of_job_1: "id_hashes jobrun_1 (the_job jobrun_1) = Inr hashes_1"
  by (simp add: jobrun_1_def)

theorem executed_step_stores_results_witness:
  "id_hashes jobrun_1 (the_job jobrun_1) = Inr hashes_1
   \<and> attempt_step jobrun_1 hashes_1 step_A state_slept = (Executed, state_done)
   \<and> (\<exists>inputs st1 c st2 outputs step_subjob.
      get_step_inputs jobrun_1 step_A hashes_1 state_slept = (Inr (Some inputs), st1)
      \<and> retrieve_compute_asset jobrun_1 (compute_asset_id step_A) st1 = (Inr c, st2)
      \<and> compute_run jobrun_1 c inputs = Inr outputs
      \<and> subjob jobrun_1 (the_job jobrun_1) step_A = Inr step_subjob
      \<and> (\<forall>(o_name, v) \<in> set outputs.
            \<exists>h. hashes_1 (dotted (step_name step_A) o_name) = Some h
               \<and> from_id_hash h = Inr (''result:'' @ h)
               \<and> assets (target_store state_done) (''result:'' @ h)
                   = Some (DataAsset (''result:'' @ h) v
                             \<lparr>job = step_subjob, item = dotted (step_name step_A) o_name\<rparr>)))
   \<and> assets (target_store state_done) ''result:0a1b''
       = Some (DataAsset ''result:0a1b'' [1, 2, 3] \<lparr>job = job_1, item = ''A.y''\<rparr>)"
proof (intro conjI)
  show "id_hashes jobrun_1 (the_job jobrun_1) = Inr hashes_1" by (rule hashes_of_job_1)
  show "attempt_step jobrun_1 hashes_1 step_A state_slept = (Executed, state_done)"
    by (rule attempt_1)
  show "\<exists>inputs st1 c st2 outputs step_subjob.
      get_step_inputs jobrun_1 step_A hashes_1 state_slept = (Inr (Some inputs), st1)
      \<and> retrieve_compute_asset jobrun_1 (compute_asset_id step_A) st1 = (Inr c, st2)
      \<and> compute_run jobrun_1 c inputs = Inr outputs
      \<and> subjob jobrun_1 (the_job jobrun_1) step_A = Inr step_subjob
      \<and> (\<forall>(o_name, v) \<in> set outputs.
            \<exists>h. hashes_1 (dotted (step_name step_A) o_name) = Some h
               \<and> from_id_hash h = Inr (''result:'' @ h)
               \<and> assets (target_store state_done) (''result:'' @ h)
                   = Some (DataAsset (''result:'' @ h) v
                             \<lparr>job = step_subjob, item = dotted (step_name step_A) o_name\<rparr>))"
    by (rule executed_step_stores_results [OF hashes_of_job_1 attempt_1])
  show "assets (target_store state_done) ''result:0a1b''
       = Some (DataAsset ''result:0a1b'' [1, 2, 3] \<lparr>job = job_1, item = ''A.y''\<rparr>)"
    by (simp add: state_done_def store_y_def result_y_def)
qed

lemma legal_outputs_True:
  "legal_outputs self perms sname outs = Inr True \<Longrightarrow> o_name \<in> set outs
   \<Longrightarrow> \<exists>p. perms (dotted sname o_name) = Some p
         \<and> may_access (policy_evaluator self) p (this_site self)"
  by (induction outs) (auto split: option.splits if_splits)

lemma legal_steps_True:
  "legal_steps self perms ss = Inr True \<Longrightarrow> step \<in> set ss
   \<Longrightarrow> sites self (step_name step) = Some (this_site self)
   \<Longrightarrow> legal_outputs self perms (step_name step) (step_outputs step) = Inr True"
  by (induction ss) (auto split: option.splits if_splits sum.splits)

lemma is_legal_checks_outputs:
  assumes "is_legal self = Inr True"
    and "step \<in> set (map snd (steps (workflow (the_job self))))"
    and "sites self (step_name step) = Some (this_site self)"
    and "o_name \<in> set (step_outputs step)"
  shows "\<exists>perms p. calculate_permissions (policy_evaluator self) (the_job self) = Inr perms
     \<and> perms (dotted (step_name step) o_name) = Some p
     \<and> may_access (policy_evaluator self) p (this_site self)"
proof -
  from assms(1) obtain perms where
    p: "calculate_permissions (policy_evaluator self) (the_job self) = Inr perms"
    and l: "legal_steps self perms (map snd (steps (workflow (the_job self)))) = Inr True"
    by (auto simp: is_legal_def split: sum.splits)
  from legal_outputs_True [OF legal_steps_True [OF l assms(2) assms(3)] assms(4)] p
  show ?thesis by blast
qed

lemma lwr_legal_steps_ignores_outputs:
  "lwr_legal_steps self perms (map (\<lambda>step. step\<lparr>step_outputs := outs step\<rparr>) ss)
     = lwr_legal_steps self perms ss"
  by (induction ss) (simp_all split: option.splits sum.splits)


text \<open>
  C8, as claimed: a step with an input that is not yet available is only skipped and
  the job is not aborted. The runner requests the compute asset of the step on every
  attempt, before it looks at whether the inputs were found; when that request raises,
  the exception leaves \<open>run\<close>. Here the input \<open>x\<close> is not found, the request for
  the compute asset raises \<open>KeyError\<close>, and the run ends with \<open>KeyError\<close>.
\<close>

theorem missing_input_job_aborted_counterexample:
  "get_step_inputs jobrun_nothing_there step_A hashes_1 state_0 = (Inr None, tick state_0)
   \<and> run 1 jobrun_nothing_there state_0 = (Some (Inl KeyError), tick (tick state_0))"
  using gsi_nothing run_nothing by simp

text \<open>
  C8, amended: when the retrieval of the inputs of a step finds an input not yet
  available and the request for the compute asset of the step succeeds, the attempt
  is abandoned and nothing else: the target store and the list of executed steps are
  as before, and the scan goes on with the remaining steps. If the scan ends with no
  progress the runner sleeps once and scans the same steps again; if another step
  makes progress only that step is removed and the skipped step is still to do.
\<close>

theorem missing_input_skips_step:
  assumes "get_step_inputs self step idh st = (Inr None, st1)"
    and "retrieve_compute_asset self (compute_asset_id step) st1 = (Inr c, st2)"
  shows "attempt_step self idh step st = (Skipped, st2)
     \<and> target_store st2 = target_store st \<and> executed st2 = executed st
     \<and> scan_steps self idh (step # rest) st = scan_steps self idh rest st2
     \<and> (scan_steps self idh rest st2 = (NoProgress, st3) \<longrightarrow>
          run_loop (Suc fuel) self idh (step # rest) st
            = run_loop fuel self idh (step # rest) (sleep st3)
          \<and> target_store (sleep st3) = target_store st
          \<and> executed (sleep st3) = executed st
          \<and> sleeps (sleep st3) = Suc (sleeps st))
     \<and> (scan_steps self idh rest st2 = (Progress done, st3) \<and> distinct (step # rest) \<longrightarrow>
          run_loop (Suc fuel) self idh (step # rest) st
            = run_loop fuel self idh (remove1 done (step # rest)) st3
          \<and> step \<in> set (remove1 done (step # rest)))"
proof -
  have a: "attempt_step self idh step st = (Skipped, st2)"
    using assms by (simp add: attempt_step_def)
  have f: "target_store st2 = target_store st \<and> executed st2 = executed st
      \<and> sleeps st2 = sleeps st"
    by (rule attempt_step_Skipped_frame [OF a])
  have s: "scan_steps self idh (step # rest) st = scan_steps self idh rest st2"
    using a by simp
  have n: "scan_steps self idh rest st2 = (NoProgress, st3) \<longrightarrow>
          run_loop (Suc fuel) self idh (step # rest) st
            = run_loop fuel self idh (step # rest) (sleep st3)
          \<and> target_store (sleep st3) = target_store st
          \<and> executed (sleep st3) = executed st
          \<and> sleeps (sleep st3) = Suc (sleeps st)"
  proof
    assume np: "scan_steps self idh rest st2 = (NoProgress, st3)"
    from scan_steps_NoProgress_frame [OF np] f
    have "target_store st3 = target_store st \<and> executed st3 = executed st
        \<and> sleeps st3 = sleeps st" by simp
    moreover have "run_loop (Suc fuel) self idh (step # rest) st
            = run_loop fuel self idh (step # rest) (sleep st3)"
      using s np by simp
    ultimately show "run_loop (Suc fuel) self idh (step # rest) st
            = run_loop fuel self idh (step # rest) (sleep st3)
          \<and> target_store (sleep st3) = target_store st
          \<and> executed (sleep st3) = executed st
          \<and> sleeps (sleep st3) = Suc (sleeps st)"
      by (simp add: sleep_def)
  qed
  have p: "scan_steps self idh rest st2 = (Progress done, st3) \<and> distinct (step # rest) \<longrightarrow>
          run_loop (Suc fuel) self idh (step # rest) st
            = run_loop fuel self idh (remove1 done (step # rest)) st3
          \<and> step \<in> set (remove1 done (step # rest))"
  proof
    assume h: "scan_steps self idh rest st2 = (Progress done, st3) \<and> distinct (step # rest)"
    then have pr: "scan_steps self idh rest st2 = (Progress done, st3)"
      and d: "distinct (step # rest)" by simp_all
    from scan_steps_Progress_mem [OF pr] d have ne: "done \<noteq> step" by auto
    have "run_loop (Suc fuel) self idh (step # rest) st
            = run_loop fuel self idh (remove1 done (step # rest)) st3"
      using s pr by simp
    moreover from ne have "step \<in> set (remove1 done (step # rest))" by auto
    ultimately show "run_loop (Suc fuel) self idh (step # rest) st
            = run_loop fuel self idh (remove1 done (step # rest)) st3
          \<and> step \<in> set (remove1 done (step # rest))" by simp
  qed
  from a f s n p show ?thesis by simp
qed

lemma gsi_2: "get_step_inputs jobrun_2 step_A hashes_1 state_0 = (Inr None, tick state_0)"
  by (simp add: get_step_inputs_def source_def loc_x jobrun_2_def job_2_def ev_defs)

lemma rca_2:
  "retrieve_compute_asset jobrun_2 (compute_asset_id step_A) (tick state_0)
     = (Inr 0, tick (tick state_0))"
  by (simp add: retrieve_compute_asset_def loc_c jobrun_2_def jobrun_1_def site_answers_def
      step_A_def)

lemma scan_2:
  "scan_steps jobrun_2 hashes_1 [step_B] (tick (tick state_0))
     = (Progress step_B,
        \<lparr>target_store = store_empty, requests = 3, executed = [''B''], sleeps = 0\<rparr>)"
  by (simp add: attempt_step_def get_step_inputs_def retrieve_compute_asset_def loc_c
      execute_step_def jobrun_2_def jobrun_1_def site_answers_def step_B_def tick_def
      state_0_def the_job_def)

lemma distinct_2: "distinct [step_A, step_B]"
  by (simp add: step_A_def step_B_def)

theorem missing_input_skips_step_witness:
  "get_step_inputs jobrun_1 step_A hashes_1 state_0 = (Inr None, tick state_0)
   \<and> retrieve_compute_asset jobrun_1 (compute_asset_id step_A) (tick state_0)
       = (Inr 0, tick (tick state_0))
   \<and> attempt_step jobrun_1 hashes_1 step_A state_0 = (Skipped, tick (tick state_0))
   \<and> target_store (tick (tick state_0)) = target_store state_0
   \<and> run_loop 2 jobrun_1 hashes_1 [step_A] state_0
       = run_loop 1 jobrun_1 hashes_1 [step_A] state_slept
   \<and> run 2 jobrun_1 state_0 = (Some (Inr ()), state_done)
   \<and> sleeps state_done = 1
   \<and> scan_steps jobrun_2 hashes_1 [step_A, step_B] state_0
       = (Progress step_B,
          \<lparr>target_store = store_empty, requests = 3, executed = [''B''], sleeps = 0\<rparr>)
   \<and> step_A \<in> set (remove1 step_B [step_A, step_B])"
proof -
  note t1 = missing_input_skips_step [OF gsi_0 rca_0, of "[]" "tick (tick state_0)" 1 step_A]
  note t2 = missing_input_skips_step [OF gsi_2 rca_2, of "[step_B]"
      "\<lparr>target_store = store_empty, requests = 3, executed = [''B''], sleeps = 0\<rparr>" 1 step_B]
  have n: "scan_steps jobrun_1 hashes_1 [] (tick (tick state_0)) = (NoProgress, tick (tick state_0))"
    by simp
  have a: "attempt_step jobrun_1 hashes_1 step_A state_0 = (Skipped, tick (tick state_0))"
    using t1 by (rule conjunct1)
  have f: "target_store (tick (tick state_0)) = target_store state_0"
    using t1 by simp
  have l: "run_loop (Suc 1) jobrun_1 hashes_1 [step_A] state_0
       = run_loop 1 jobrun_1 hashes_1 [step_A] (sleep (tick (tick state_0)))"
    using t1 n by blast
  have s2: "scan_steps jobrun_2 hashes_1 [step_A, step_B] state_0
      = scan_steps jobrun_2 hashes_1 [step_B] (tick (tick state_0))"
    using t2 by blast
  have m: "step_A \<in> set (remove1 step_B [step_A, step_B])"
    using t2 scan_2 distinct_2 by blast
  have l2: "run_loop 2 jobrun_1 hashes_1 [step_A] state_0
       = run_loop 1 jobrun_1 hashes_1 [step_A] state_slept"
    using l by (simp add: slept_eq numeral_2_eq_2)
  show ?thesis
    using gsi_0 rca_0 a f l2 run_1 s2 scan_2 m by (simp add: state_done_def)
qed

end
